theory Spec2Isabelle
  imports Main
begin

section \<open>Persona cache and compose selection (web/src/personas.ts)\<close>

text \<open>
  The module keeps its state in top-level variables. The model gathers them in one record
  and passes it explicitly. Identifiers are JavaScript numbers that hold database keys;
  they are modelled as \<open>int\<close>. A value of type \<open>number | null\<close> is an \<open>int option\<close>.
  The fields \<open>id\<close> and \<open>name\<close> of a persona are \<open>persona_id\<close> and \<open>persona_name\<close>
  here; the fields of the realm-wide \<open>Persona\<close> carry the prefix \<open>realm_\<close> where the
  two types share a name.
\<close>

record Persona =
  realm_persona_id :: int
  realm_persona_name :: string
  realm_avatar_url :: "string option"
  realm_color :: "string option"
  user_id :: int
  user_full_name :: string

record MyPersona =
  persona_id :: int
  persona_name :: string
  avatar_url :: "string option"
  color :: "string option"
  bio :: string
  is_active :: bool
  date_created :: int

text \<open>
  Closures are stored as data. \<open>Update_for_stream sid\<close> is the arrow function
  \<^verbatim>\<open>() => update_for_stream(stream_id)\<close> of compose_persona.ts. A change callback is
  either the named function \<open>on_personas_changed\<close> of compose_persona.ts or a
  \<open>one_time_callback\<close> closure built by \<open>fetch_my_personas\<close>; each such closure is a new
  object, told apart here by its allocation number. Callbacks of other modules (the
  settings page redraws its table) are outside the model.
\<close>

datatype thunk = Update_for_stream int

datatype callback = On_personas_changed | One_time_callback nat thunk

text \<open>
  What \<open>update_selector_display\<close> writes into the selector button. The avatar is
  recorded by the data its markup is built from.
\<close>

datatype avatar =
    Icon_user
  | Avatar_img string
  | Avatar_initial string "string option"

record selector_button =
  avatar_html :: avatar
  name_text :: string
  name_color :: string
  using_persona :: bool

text \<open>
  \<open>change_callbacks\<close> is a JavaScript \<open>Set\<close>. Its entries are kept in insertion order;
  \<open>delete\<close> leaves an empty slot behind (\<open>None\<close>) and \<open>add\<close> appends, which is what an
  iteration in progress observes. \<open>compose_stream_id\<close> is what
  \<open>compose_state.stream_id()\<close> returns, \<open>requests\<close> are the GET requests issued for
  \<^verbatim>\<open>/json/users/me/personas\<close>, each with the callback its handlers captured, and the
  last two fields are the part of the page the compose module writes.
\<close>

record state =
  realm_personas :: "Persona list"
  realm_personas_fetched :: bool
  realm_personas_pending :: bool
  my_personas :: "MyPersona list"
  my_personas_fetched :: bool
  my_personas_pending :: bool
  compose_persona_by_stream :: "int \<rightharpoonup> int option"
  current_compose_persona_id :: "int option"
  change_callbacks :: "callback option list"
  next_closure :: nat
  requests :: "thunk option list"
  compose_stream_id :: "int option"
  selector_visible :: bool
  button :: selector_button

definition yourself_button :: selector_button where
  "yourself_button =
     \<lparr>avatar_html = Icon_user, name_text = ''Yourself'', name_color = '''',
      using_persona = False\<rparr>"

definition initial_state :: state where
  "initial_state =
     \<lparr>realm_personas = [], realm_personas_fetched = False, realm_personas_pending = False,
      my_personas = [], my_personas_fetched = False, my_personas_pending = False,
      compose_persona_by_stream = Map.empty, current_compose_persona_id = None,
      change_callbacks = [], next_closure = 0, requests = [],
      compose_stream_id = None, selector_visible = False, button = yourself_button\<rparr>"

definition register_change_callback :: "callback \<Rightarrow> state \<Rightarrow> state" where
  "register_change_callback cb s =
     (if Some cb \<in> set (change_callbacks s) then s
      else s\<lparr>change_callbacks := change_callbacks s @ [Some cb]\<rparr>)"

definition unregister_change_callback :: "callback \<Rightarrow> state \<Rightarrow> state" where
  "unregister_change_callback cb s =
     s\<lparr>change_callbacks :=
         map (\<lambda>e. if e = Some cb then None else e) (change_callbacks s)\<rparr>"

definition get_my_personas :: "state \<Rightarrow> MyPersona list" where
  "get_my_personas s = my_personas s"

definition has_fetched_my_personas :: "state \<Rightarrow> bool" where
  "has_fetched_my_personas s = my_personas_fetched s"

definition get_compose_persona_id :: "state \<Rightarrow> int option" where
  "get_compose_persona_id s = current_compose_persona_id s"

text \<open>The second argument is \<open>None\<close> when \<open>stream_id\<close> is \<open>undefined\<close>.\<close>

definition set_compose_persona_id :: "int option \<Rightarrow> int option \<Rightarrow> state \<Rightarrow> state" where
  "set_compose_persona_id pid stream_id s =
     (let s1 = s\<lparr>current_compose_persona_id := pid\<rparr>
      in case stream_id of
           None \<Rightarrow> s1
         | Some sid \<Rightarrow>
             s1\<lparr>compose_persona_by_stream := (compose_persona_by_stream s1)(sid \<mapsto> pid)\<rparr>)"

text \<open>\<^verbatim>\<open>compose_persona_by_stream.get(stream_id) ?? null\<close>: a missing key and a stored
  \<open>null\<close> both give \<open>null\<close>.\<close>

definition get_sticky_persona_for_stream :: "int \<Rightarrow> state \<Rightarrow> int option" where
  "get_sticky_persona_for_stream stream_id s =
     (case compose_persona_by_stream s stream_id of None \<Rightarrow> None | Some v \<Rightarrow> v)"

definition clear_cache :: "state \<Rightarrow> state" where
  "clear_cache s =
     s\<lparr>realm_personas := [], realm_personas_fetched := False,
       my_personas := [], my_personas_fetched := False,
       compose_persona_by_stream := Map.empty, current_compose_persona_id := None\<rparr>"

text \<open>A run of \<open>set_compose_persona_id\<close> calls, each with a defined stream.\<close>

fun set_compose_persona_ids :: "(int option \<times> int) list \<Rightarrow> state \<Rightarrow> state" where
  "set_compose_persona_ids [] s = s"
| "set_compose_persona_ids ((pid, sid) # cs) s =
     set_compose_persona_ids cs (set_compose_persona_id pid (Some sid) s)"

section \<open>The compose-box persona selector (web/src/compose_persona.ts)\<close>

text \<open>A string used as a condition is true when it is neither \<open>null\<close> nor empty.\<close>

definition truthy :: "string option \<Rightarrow> bool" where
  "truthy x = (case x of None \<Rightarrow> False | Some v \<Rightarrow> v \<noteq> [])"

definition persona_button :: "MyPersona \<Rightarrow> selector_button" where
  "persona_button persona =
     \<lparr>avatar_html =
        (if truthy (avatar_url persona) then Avatar_img (the (avatar_url persona))
         else Avatar_initial (persona_name persona)
                (if truthy (color persona) then color persona else None)),
      name_text = persona_name persona,
      name_color = (if truthy (color persona) then the (color persona) else []),
      using_persona = True\<rparr>"

definition get_current_persona_id :: "state \<Rightarrow> int option" where
  "get_current_persona_id s = get_compose_persona_id s"

text \<open>
  \<open>update_selector_display\<close> and \<open>set_current_persona_id\<close> call each other: a selection
  that names no persona of the list is reset through \<open>set_current_persona_id(null)\<close>,
  which redraws the button.
\<close>

function update_selector_display :: "state \<Rightarrow> state"
  and set_current_persona_id :: "int option \<Rightarrow> state \<Rightarrow> state" where
  "update_selector_display s =
     (case get_compose_persona_id s of
        None \<Rightarrow> s\<lparr>button := yourself_button\<rparr>
      | Some cur \<Rightarrow>
          (case find (\<lambda>p. persona_id p = cur) (get_my_personas s) of
             Some persona \<Rightarrow> s\<lparr>button := persona_button persona\<rparr>
           | None \<Rightarrow> set_current_persona_id None s))"
| "set_current_persona_id pid s =
     update_selector_display (set_compose_persona_id pid (compose_stream_id s) s)"
  by pat_completeness auto
termination
  by (relation "measure (\<lambda>x. case x of
          Inl s \<Rightarrow> (case current_compose_persona_id s of None \<Rightarrow> 0 | Some _ \<Rightarrow> 2)
        | Inr (pid, s) \<Rightarrow> (case pid of None \<Rightarrow> 1 | Some _ \<Rightarrow> 3))")
     (auto simp: get_compose_persona_id_def set_compose_persona_id_def Let_def
           split: option.splits)

declare update_selector_display.simps [simp del] set_current_persona_id.simps [simp del]

definition show_selector :: "state \<Rightarrow> state" where
  "show_selector s = s\<lparr>selector_visible := True\<rparr>"

definition hide_selector :: "state \<Rightarrow> state" where
  "hide_selector s = s\<lparr>selector_visible := False\<rparr>"

text \<open>
  \<open>fetch_my_personas\<close> belongs to personas.ts; it stands here because the callback it
  may run at once is a closure over \<open>update_for_stream\<close>. Issuing the GET request
  is recorded in \<open>requests\<close>; its handlers are \<open>my_personas_success\<close> and
  \<open>my_personas_error\<close> below.
\<close>

function update_for_stream :: "int option \<Rightarrow> state \<Rightarrow> state"
  and fetch_my_personas :: "thunk option \<Rightarrow> state \<Rightarrow> state"
  and run_thunk :: "thunk \<Rightarrow> state \<Rightarrow> state" where
  "update_for_stream stream_id s =
     (case stream_id of
        None \<Rightarrow>
          (if length (get_my_personas s) > 0 then show_selector s else hide_selector s)
      | Some sid \<Rightarrow>
          (if \<not> has_fetched_my_personas s
           then fetch_my_personas (Some (Update_for_stream sid)) s
           else if length (get_my_personas s) = 0 then hide_selector s
           else (let s1 = show_selector s;
                     s2 = (case get_sticky_persona_for_stream sid s1 of
                             None \<Rightarrow> s1
                           | Some sticky_persona \<Rightarrow>
                               set_compose_persona_id (Some sticky_persona) (Some sid) s1)
                 in update_selector_display s2)))"
| "fetch_my_personas callback s =
     (if my_personas_fetched s
      then (case callback of None \<Rightarrow> s | Some t \<Rightarrow> run_thunk t s)
      else if my_personas_pending s
      then (case callback of
              None \<Rightarrow> s
            | Some t \<Rightarrow>
                register_change_callback (One_time_callback (next_closure s) t)
                  (s\<lparr>next_closure := Suc (next_closure s)\<rparr>))
      else s\<lparr>my_personas_pending := True, requests := requests s @ [callback]\<rparr>)"
| "run_thunk (Update_for_stream sid) s = update_for_stream (Some sid) s"
  by pat_completeness auto
termination
  by (relation "measure (\<lambda>x. case x of
          Inl _ \<Rightarrow> 1
        | Inr (Inl (_, s)) \<Rightarrow> (if my_personas_fetched s then 3 else 0)
        | Inr (Inr _) \<Rightarrow> 2)")
     (auto simp: has_fetched_my_personas_def)

declare update_for_stream.simps [simp del] fetch_my_personas.simps [simp del]

definition on_personas_changed :: "state \<Rightarrow> state" where
  "on_personas_changed s =
     (let s1 = update_selector_display s
      in update_for_stream (compose_stream_id s1) s1)"

text \<open>
  \<^verbatim>\<open>my_personas.findIndex(...)\<close>: the index of the first match, or \<open>-1\<close>.
\<close>

fun findIndex :: "('a \<Rightarrow> bool) \<Rightarrow> 'a list \<Rightarrow> int" where
  "findIndex P [] = - 1"
| "findIndex P (x # xs) =
     (if P x then 0 else (let r = findIndex P xs in if r = - 1 then - 1 else r + 1))"

definition cycle_persona :: "state \<Rightarrow> state" where
  "cycle_persona s =
     (let ps = get_my_personas s in
      if length ps = 0 then s
      else (case get_compose_persona_id s of
              None \<Rightarrow> set_current_persona_id (Some (persona_id (ps ! 0))) s
            | Some cur \<Rightarrow>
                (let current_index = findIndex (\<lambda>p. persona_id p = cur) ps in
                 if current_index = - 1 \<or> current_index = int (length ps) - 1
                 then set_current_persona_id None s
                 else set_current_persona_id
                        (Some (persona_id (ps ! nat (current_index + 1)))) s)))"

section \<open>Change notification and persona events (web/src/personas.ts)\<close>

text \<open>
  What a stored callback does when called. A \<open>one_time_callback\<close> runs the callback it
  wraps and then takes itself out of the set.
\<close>

fun run_callback :: "callback \<Rightarrow> state \<Rightarrow> state" where
  "run_callback On_personas_changed s = on_personas_changed s"
| "run_callback (One_time_callback n t) s =
     unregister_change_callback (One_time_callback n t) (run_thunk t s)"

text \<open>
  \<open>notify_change\<close> is a \<^verbatim>\<open>for ... of\<close> loop over the set. The iterator walks the entries
  by position and reads the set afresh at every step, so a callback that adds an entry
  lengthens the walk. The loop need not end; \<open>None\<close> is the run that never returns.
\<close>

partial_function (option) notify_from :: "nat \<Rightarrow> state \<Rightarrow> state option" where
  "notify_from i s =
     (if i < length (change_callbacks s)
      then (case change_callbacks s ! i of
              None \<Rightarrow> notify_from (Suc i) s
            | Some cb \<Rightarrow> notify_from (Suc i) (run_callback cb s))
      else Some s)"

definition notify_change :: "state \<Rightarrow> state option" where
  "notify_change s = notify_from 0 s"

text \<open>
  The handlers of the GET request issued by \<open>fetch_my_personas\<close>, for the request
  whose captured callback is \<open>callback\<close>; \<open>personas\<close> is the parsed response.
\<close>

definition my_personas_success ::
  "thunk option \<Rightarrow> MyPersona list \<Rightarrow> state \<Rightarrow> state option" where
  "my_personas_success callback personas s =
     (let s1 = s\<lparr>my_personas := personas, my_personas_fetched := True,
                  my_personas_pending := False\<rparr>;
          s2 = (case callback of None \<Rightarrow> s1 | Some t \<Rightarrow> run_thunk t s1)
      in notify_change s2)"

definition my_personas_error :: "thunk option \<Rightarrow> state \<Rightarrow> state" where
  "my_personas_error callback s =
     (let s1 = s\<lparr>my_personas := [], my_personas_fetched := True,
                  my_personas_pending := False\<rparr>
      in case callback of None \<Rightarrow> s1 | Some t \<Rightarrow> run_thunk t s1)"

text \<open>
  The event object \<^verbatim>\<open>{op, persona?, persona_id?}\<close>. An absent field is \<open>None\<close>. The
  condition \<^verbatim>\<open>event.persona_id\<close> is false for an absent id and for the number 0.
\<close>

record persona_event =
  event_op :: string
  event_persona :: "MyPersona option"
  event_persona_id :: "int option"

text \<open>The events for an added and for a removed persona.\<close>

definition add_event :: "MyPersona \<Rightarrow> persona_event" where
  "add_event p = \<lparr>event_op = ''add'', event_persona = Some p, event_persona_id = None\<rparr>"

definition remove_event :: "int \<Rightarrow> persona_event" where
  "remove_event x = \<lparr>event_op = ''remove'', event_persona = None, event_persona_id = Some x\<rparr>"

definition mark_realm_personas_stale :: "state \<Rightarrow> state" where
  "mark_realm_personas_stale s =
     (if realm_personas_fetched s then s\<lparr>realm_personas_fetched := False\<rparr> else s)"

definition handle_persona_event :: "persona_event \<Rightarrow> state \<Rightarrow> state option" where
  "handle_persona_event event s =
     (case (event_persona event, event_persona_id event) of (persona, pid) \<Rightarrow>
      if event_op event = ''add'' \<and> persona \<noteq> None
      then notify_change
             (mark_realm_personas_stale (s\<lparr>my_personas := my_personas s @ [the persona]\<rparr>))
      else if event_op event = ''update'' \<and> persona \<noteq> None
      then (let index = findIndex (\<lambda>p. persona_id p = persona_id (the persona))
                          (my_personas s);
                s1 = (if index \<noteq> - 1
                      then s\<lparr>my_personas := (my_personas s)[nat index := the persona]\<rparr>
                      else s)
            in notify_change (mark_realm_personas_stale s1))
      else if event_op event = ''remove'' \<and> pid \<noteq> None \<and> pid \<noteq> Some 0
      then (let s1 = s\<lparr>my_personas :=
                          filter (\<lambda>p. persona_id p \<noteq> the pid) (my_personas s)\<rparr>;
                s2 = (if current_compose_persona_id s1 = pid
                      then s1\<lparr>current_compose_persona_id := None\<rparr> else s1)
            in notify_change (mark_realm_personas_stale s2))
      else Some s)"

text \<open>\<open>initialize\<close> of compose_persona.ts, without the DOM event handlers it installs.\<close>

definition initialize :: "state \<Rightarrow> state" where
  "initialize s = fetch_my_personas None (register_change_callback On_personas_changed s)"

text \<open>The selection is the user's own identity or the id of a persona of the list.\<close>

definition selection_valid :: "state \<Rightarrow> bool" where
  "selection_valid s =
     (case current_compose_persona_id s of
        None \<Rightarrow> True
      | Some c \<Rightarrow> find (\<lambda>p. persona_id p = c) (my_personas s) \<noteq> None)"

text \<open>The selector is shown exactly when there are personas.\<close>

definition visibility_ok :: "state \<Rightarrow> bool" where
  "visibility_ok s = (selector_visible s = (my_personas s \<noteq> []))"

text \<open>
  The situation in which \<open>notify_change\<close> does not return: the list is neither
  fetched nor has its request come back, and from position \<open>i\<close> on the set holds a
  callback that will ask for the list again: \<open>on_personas_changed\<close> with a stream in
  the compose box, or a one-time callback. \<open>callbacks_fresh\<close> says that the closures in
  the set were allocated before the next one will be.
\<close>

definition callbacks_fresh :: "state \<Rightarrow> bool" where
  "callbacks_fresh s =
     (\<forall>e \<in> set (change_callbacks s).
        case e of Some (One_time_callback n _) \<Rightarrow> n < next_closure s | _ \<Rightarrow> True)"

definition live_callback :: "state \<Rightarrow> callback option \<Rightarrow> bool" where
  "live_callback s e =
     (case e of
        None \<Rightarrow> False
      | Some On_personas_changed \<Rightarrow> compose_stream_id s \<noteq> None
      | Some (One_time_callback _ _) \<Rightarrow> True)"

definition fetch_in_flight :: "nat \<Rightarrow> state \<Rightarrow> bool" where
  "fetch_in_flight i s =
     (\<not> my_personas_fetched s \<and> my_personas_pending s \<and> callbacks_fresh s
      \<and> list_ex (live_callback s) (drop i (change_callbacks s)))"

section \<open>Whisper recipient pills (src/unnamed/part_003)\<close>

text \<open>
  The file holds two modules with the same exports: the puppet-aware one, whose pill
  container may hold puppet pills beside user and group pills, and the plain one for
  users and groups only. The plain module's definitions carry the suffix \<open>_plain\<close>.

  Neither module's imports are among the sources. What they contribute is taken as a
  parameter: the lookups of \<open>people\<close>, \<open>user_groups\<close> and \<open>stream_puppets\<close>, the
  readers \<open>user_pill.get_user_ids\<close> and \<open>user_group_pill.get_group_ids\<close>, and the
  setter \<open>compose_state.set_whisper_recipients\<close>, whose third argument is \<open>None\<close> when
  the caller passes two. A user or group pill is recorded by the person or group it was
  made for (types \<open>'u\<close> and \<open>'g\<close>).
\<close>

record StreamPuppet =
  sp_id :: int
  sp_name :: string
  sp_avatar_url :: "string option"

datatype ('u, 'g) WhisperPill =
    User_pill 'u
  | User_group_pill 'g
  | Puppet_pill int string

record ('u, 'g, 'c) env =
  maybe_get_user_by_id :: "int \<Rightarrow> 'u option"
  maybe_get_user_group_from_id :: "int \<Rightarrow> 'g option"
  get_puppets_for_stream :: "int \<Rightarrow> StreamPuppet list"
  user_pill_get_user_ids :: "('u, 'g) WhisperPill list \<Rightarrow> int list"
  user_group_pill_get_group_ids :: "('u, 'g) WhisperPill list \<Rightarrow> int list"
  set_whisper_recipients :: "int list \<Rightarrow> int list \<Rightarrow> int list option \<Rightarrow> 'c \<Rightarrow> 'c"
  clear_quiet :: bool

text \<open>
  The state the two modules act on: \<open>widget\<close> is the pill container (\<open>None\<close> before
  \<open>initialize\<close>), seen as the list of its items; \<open>current_stream_id\<close> belongs to the
  puppet-aware module; \<open>compose\<close> is the state behind \<open>compose_state\<close>;
  \<open>pill_changes\<close> counts the calls of the \<open>on_pill_create_or_remove\<close> callback that
  \<open>initialize\<close> was given.
\<close>

record ('u, 'g, 'c) pill_state =
  widget :: "('u, 'g) WhisperPill list option"
  current_stream_id :: "int option"
  compose :: 'c
  pill_changes :: nat

text \<open>
  The pill container of \<open>input_pill\<close>, as the modules use it. \<open>appendValidatedData\<close>
  adds the item at the end and calls the \<open>onPillCreate\<close> callback. \<open>clear\<close> removes
  the pills from the last to the first; whether it calls the \<open>onPillRemove\<close> callback
  for each is left open by \<open>clear_quiet\<close>.
\<close>

definition appendValidatedData ::
  "(('u, 'g, 'c) pill_state \<Rightarrow> ('u, 'g, 'c) pill_state) \<Rightarrow> ('u, 'g) WhisperPill \<Rightarrow>
   ('u, 'g, 'c) pill_state \<Rightarrow> ('u, 'g, 'c) pill_state" where
  "appendValidatedData on_create item st =
     (case widget st of
        None \<Rightarrow> st
      | Some items \<Rightarrow> on_create (st\<lparr>widget := Some (items @ [item])\<rparr>))"



text \<open>\<open>user_pill.append_person\<close> and \<open>user_group_pill.append_user_group\<close>.\<close>

definition append_person ::
  "(('u, 'g, 'c) pill_state \<Rightarrow> ('u, 'g, 'c) pill_state) \<Rightarrow> 'u \<Rightarrow>
   ('u, 'g, 'c) pill_state \<Rightarrow> ('u, 'g, 'c) pill_state" where
  "append_person on_create person st = appendValidatedData on_create (User_pill person) st"


subsection \<open>The puppet-aware module\<close>

definition set_current_stream_id ::
  "int option \<Rightarrow> ('u, 'g, 'c) pill_state \<Rightarrow> ('u, 'g, 'c) pill_state" where
  "set_current_stream_id stream_id st = st\<lparr>current_stream_id := stream_id\<rparr>"

text \<open>The ids of the puppet pills among the items, in order.\<close>

definition puppet_ids_of :: "('u, 'g) WhisperPill list \<Rightarrow> int list" where
  "puppet_ids_of items =
     concat (map (\<lambda>item. case item of Puppet_pill pid _ \<Rightarrow> [pid] | _ \<Rightarrow> []) items)"

definition get_puppet_ids :: "('u, 'g, 'c) pill_state \<Rightarrow> int list" where
  "get_puppet_ids st = (case widget st of None \<Rightarrow> [] | Some items \<Rightarrow> puppet_ids_of items)"




definition update_compose_state ::
  "('u, 'g, 'c) env \<Rightarrow> ('u, 'g, 'c) pill_state \<Rightarrow> ('u, 'g, 'c) pill_state" where
  "update_compose_state e st =
     (case widget st of
        None \<Rightarrow> st
      | Some items \<Rightarrow>
          st\<lparr>compose :=
               set_whisper_recipients e (user_pill_get_user_ids e items)
                 (user_group_pill_get_group_ids e items) (Some (get_puppet_ids st))
                 (compose st)\<rparr>)"

text \<open>
  The callback that \<open>initialize\<close> registers with \<open>onPillCreate\<close> and, without the
  focus change, with \<open>onPillRemove\<close>.
\<close>

definition on_pill_change ::
  "('u, 'g, 'c) env \<Rightarrow> ('u, 'g, 'c) pill_state \<Rightarrow> ('u, 'g, 'c) pill_state" where
  "on_pill_change e st =
     (let st1 = update_compose_state e st in st1\<lparr>pill_changes := Suc (pill_changes st1)\<rparr>)"




definition set_from_puppet_ids ::
  "('u, 'g, 'c) env \<Rightarrow> int list \<Rightarrow> ('u, 'g, 'c) pill_state \<Rightarrow> ('u, 'g, 'c) pill_state" where
  "set_from_puppet_ids e puppet_ids st =
     (case (widget st, current_stream_id st) of
        (Some _, Some stream_id) \<Rightarrow>
          (let puppets = get_puppets_for_stream e stream_id
           in fold (\<lambda>puppet_id st'.
                      case find (\<lambda>p. sp_id p = puppet_id) puppets of
                        None \<Rightarrow> st'
                      | Some puppet \<Rightarrow>
                          appendValidatedData (on_pill_change e)
                            (Puppet_pill (sp_id puppet) (sp_name puppet)) st')
                puppet_ids st)
      | _ \<Rightarrow> st)"



subsection \<open>The plain module\<close>




definition update_compose_state_plain ::
  "('u, 'g, 'c) env \<Rightarrow> ('u, 'g, 'c) pill_state \<Rightarrow> ('u, 'g, 'c) pill_state" where
  "update_compose_state_plain e st =
     (case widget st of
        None \<Rightarrow> st
      | Some items \<Rightarrow>
          st\<lparr>compose :=
               set_whisper_recipients e (user_pill_get_user_ids e items)
                 (user_group_pill_get_group_ids e items) None (compose st)\<rparr>)"

definition on_pill_change_plain ::
  "('u, 'g, 'c) env \<Rightarrow> ('u, 'g, 'c) pill_state \<Rightarrow> ('u, 'g, 'c) pill_state" where
  "on_pill_change_plain e st =
     (let st1 = update_compose_state_plain e st
      in st1\<lparr>pill_changes := Suc (pill_changes st1)\<rparr>)"


definition set_from_user_ids_plain ::
  "('u, 'g, 'c) env \<Rightarrow> int list \<Rightarrow> ('u, 'g, 'c) pill_state \<Rightarrow> ('u, 'g, 'c) pill_state" where
  "set_from_user_ids_plain e user_ids st =
     (if widget st = None then st
      else fold (\<lambda>user_id st'.
                   case maybe_get_user_by_id e user_id of
                     None \<Rightarrow> st'
                   | Some person \<Rightarrow> append_person (on_pill_change_plain e) person st')
             user_ids st)"





text \<open>Two states that differ at most in the compose state.\<close>

definition same_pills :: "('u, 'g, 'c) pill_state \<Rightarrow> ('u, 'g, 'c) pill_state \<Rightarrow> bool" where
  "same_pills a b =
     (widget a = widget b \<and> current_stream_id a = current_stream_id b
      \<and> pill_changes a = pill_changes b)"

section \<open>Bot command invocation (src/unnamed/part_000)\<close>

text \<open>
  The source is the end-to-end test of the slash-command flow. It declares the body of
  the request that a bot receives for a command invocation. \<open>arguments\<close> is a
  \<^verbatim>\<open>Record<string, string>\<close>, modelled as a map.
\<close>

record invoking_user =
  invoking_user_id :: int
  invoking_user_email :: string
  invoking_user_full_name :: string

record CommandInvocationRequest =
  request_type :: string
  command :: string
  arguments :: "string \<rightharpoonup> string"
  interaction_id :: string
  user :: invoking_user

subsection \<open>The dispatch pipeline\<close>

text \<open>
  Modelled from the spec: the server side of the pipeline (command registry, event
  producer, queue and worker) is not among the sources. The spec's data model gives a
  bot command its owning bot, name and option list, unique per bot and realm, and an
  interaction event its interaction id, invoking user, target command and arguments; its
  overview has the producer turn a user action into an event record, the queue keep the
  events in order and deliver them at least once, and the worker dequeue an event and
  perform the webhook POST or the in-process handler call. The pipeline is that of one
  realm, so a command is identified by its owning bot and its name. The interaction id
  of a new event is supplied by the host.
\<close>

record BotCommand =
  command_bot_id :: int
  command_name :: string
  command_description :: string
  command_options :: "string list"

record interaction_event =
  event_bot_id :: int
  event_command :: string
  event_arguments :: "string \<rightharpoonup> string"
  event_interaction_id :: string
  event_user :: invoking_user

text \<open>
  Modelled from the spec: a delivery attempt is a webhook POST or, for an embedded bot,
  a call of its in-process handler; it reaches the bot or fails.
\<close>

datatype delivery_channel = Webhook_POST | Handler_call

datatype delivery_result = Delivered | Delivery_failed

record delivery_attempt =
  attempt_bot_id :: int
  attempt_channel :: delivery_channel
  attempt_body :: CommandInvocationRequest
  attempt_result :: delivery_result

text \<open>
  Modelled from the spec: the state of the pipeline. \<open>embedded_bots\<close> are the bots with
  an in-process handler; \<open>delivery_attempts\<close> are the attempts the worker has made, in
  order; \<open>delivery_failure_log\<close> holds the interaction ids of the failed ones.
\<close>

record pipeline =
  bot_commands :: "BotCommand list"
  embedded_bots :: "int list"
  event_queue :: "interaction_event list"
  delivery_attempts :: "delivery_attempt list"
  delivery_failure_log :: "string list"
  issued_interaction_ids :: "string list"
  consumed_interaction_ids :: "string list"

text \<open>
  Modelled from the spec: submitting a filled command of bot \<open>bot_id\<close> makes one event for
  that command and puts it at the end of the queue; a command that the bot has not
  registered makes none.
\<close>

definition submit_command ::
  "invoking_user \<Rightarrow> int \<Rightarrow> string \<Rightarrow> (string \<rightharpoonup> string) \<Rightarrow> string \<Rightarrow> pipeline \<Rightarrow> pipeline"
  where
  "submit_command u bot_id name args new_id p =
     (case find (\<lambda>c. command_bot_id c = bot_id \<and> command_name c = name) (bot_commands p) of
        None \<Rightarrow> p
      | Some c \<Rightarrow>
          p\<lparr>event_queue := event_queue p @
                 [\<lparr>event_bot_id = command_bot_id c, event_command = command_name c,
                   event_arguments = args, event_interaction_id = new_id, event_user = u\<rparr>],
            issued_interaction_ids := issued_interaction_ids p @ [new_id]\<rparr>)"

text \<open>
  Modelled from the spec: the body of the outgoing request for an event, with the
  fields of the webhook contract.
\<close>

definition webhook_body :: "interaction_event \<Rightarrow> CommandInvocationRequest" where
  "webhook_body ev =
     \<lparr>request_type = ''command_invocation'', command = event_command ev,
      arguments = event_arguments ev, interaction_id = event_interaction_id ev,
      user = event_user ev\<rparr>"

text \<open>
  Modelled from the spec: one delivery attempt of the worker, for the event at the head
  of the queue. The spec leaves to the host framework whether an attempt reaches the bot
  and whether the queue hands the event out again afterwards (delivery at least once,
  the queue's retry policy); both are given from outside, as \<open>result\<close> and
  \<open>redeliver\<close>. A failed attempt is logged. An event that is not handed out again
  leaves the queue.
\<close>

definition worker_attempt :: "delivery_result \<Rightarrow> bool \<Rightarrow> pipeline \<Rightarrow> pipeline" where
  "worker_attempt result redeliver p =
     (case event_queue p of
        [] \<Rightarrow> p
      | ev # rest \<Rightarrow>
          p\<lparr>event_queue := (if redeliver then ev # rest else rest),
            delivery_attempts := delivery_attempts p @
              [\<lparr>attempt_bot_id = event_bot_id ev,
                attempt_channel =
                  (if event_bot_id ev \<in> set (embedded_bots p) then Handler_call
                   else Webhook_POST),
                attempt_body = webhook_body ev, attempt_result = result\<rparr>],
            delivery_failure_log :=
              (if result = Delivery_failed
               then delivery_failure_log p @ [event_interaction_id ev]
               else delivery_failure_log p)\<rparr>)"

subsection \<open>Interaction ids\<close>

text \<open>
  Modelled from the spec: how a bot's response consumes an interaction id is not among
  the sources. The spec's invariant is that an interaction id is consumed at most once by
  the responding bot; the model accepts a response for an id that was issued and has not
  been consumed, records the id as consumed, and rejects every other response.
\<close>

datatype response_result = Response_accepted | Response_rejected

definition respond_to_interaction :: "string \<Rightarrow> pipeline \<Rightarrow> response_result \<times> pipeline" where
  "respond_to_interaction iid p =
     (if iid \<in> set (issued_interaction_ids p) \<and> iid \<notin> set (consumed_interaction_ids p)
      then (Response_accepted, p\<lparr>consumed_interaction_ids := consumed_interaction_ids p @ [iid]\<rparr>)
      else (Response_rejected, p))"

text \<open>
  Modelled from the spec: a run of the pipeline, in which users submit commands, the
  worker makes delivery attempts and bots respond, in any order. The run returns the
  final state and, in order, the interaction ids of the accepted responses.
\<close>

datatype pipeline_op =
    Submit invoking_user int string "string \<rightharpoonup> string" string
  | Work delivery_result bool
  | Respond string

fun run_pipeline :: "pipeline_op list \<Rightarrow> pipeline \<Rightarrow> string list \<Rightarrow> pipeline \<times> string list" where
  "run_pipeline [] p accepted = (p, accepted)"
| "run_pipeline (Submit u bot_id name args new_id # ops) p accepted =
     run_pipeline ops (submit_command u bot_id name args new_id p) accepted"
| "run_pipeline (Work result redeliver # ops) p accepted =
     run_pipeline ops (worker_attempt result redeliver p) accepted"
| "run_pipeline (Respond iid # ops) p accepted =
     (case respond_to_interaction iid p of
        (Response_accepted, p') \<Rightarrow> run_pipeline ops p' (accepted @ [iid])
      | (Response_rejected, p') \<Rightarrow> run_pipeline ops p' accepted)"

section \<open>Creating personas (web/src/personas.ts, settings part; web/e2e-tests/personas.test.ts)\<close>

text \<open>
  \<open>submit_character_form\<close> reads the fields of the character form and sends a POST
  for a new persona or a PATCH when the form carries a persona id. An empty avatar URL
  and the default colour \<^verbatim>\<open>#6b7280\<close> are left out of the request.
\<close>

record character_form =
  character_name :: string
  character_avatar_url :: string
  character_color :: string
  character_bio :: string
  character_id :: string

record persona_data =
  data_name :: string
  data_bio :: string
  data_avatar_url :: "string option"
  data_color :: "string option"

datatype api_request =
    Post_persona persona_data
  | Patch_persona string persona_data

definition submit_character_form :: "character_form \<Rightarrow> api_request" where
  "submit_character_form form =
     (let avatar = (if character_avatar_url form \<noteq> [] then Some (character_avatar_url form)
                    else None);
          col = (if character_color form \<noteq> [] \<and> character_color form \<noteq> ''#6b7280''
                 then Some (character_color form) else None);
          data = \<lparr>data_name = character_name form, data_bio = character_bio form,
                  data_avatar_url = avatar, data_color = col\<rparr>
      in if character_id form \<noteq> [] then Patch_persona (character_id form) data
         else Post_persona data)"

text \<open>
  Modelled from the spec: the server's persona store and its handler for
  \<^verbatim>\<open>POST /json/users/me/personas\<close> are not among the sources. By the spec a persona is
  owned by a user and has a display name, an optional avatar and an optional colour,
  persona names are unique per owning user, and creating a persona under a name the user
  already owns fails with a duplicate-name error. The handler returns its answer and the
  store it leaves.
\<close>

record stored_persona =
  stored_id :: int
  stored_owner :: int
  stored_name :: string
  stored_avatar_url :: "string option"
  stored_color :: "string option"
  stored_bio :: string

datatype persona_error = Duplicate_persona_name

definition owns_name :: "int \<Rightarrow> string \<Rightarrow> stored_persona list \<Rightarrow> bool" where
  "owns_name owner n store = (find (\<lambda>p. stored_owner p = owner \<and> stored_name p = n) store \<noteq> None)"

definition create_persona ::
  "int \<Rightarrow> persona_data \<Rightarrow> int \<Rightarrow> stored_persona list \<Rightarrow>
   (persona_error + stored_persona) \<times> stored_persona list" where
  "create_persona owner data new_id store =
     (if owns_name owner (data_name data) store then (Inl Duplicate_persona_name, store)
      else (let p = \<lparr>stored_id = new_id, stored_owner = owner, stored_name = data_name data,
                      stored_avatar_url = data_avatar_url data, stored_color = data_color data,
                      stored_bio = data_bio data\<rparr>
            in (Inr p, store @ [p])))"

text \<open>
  Modelled from the spec: the request of a submitted form, handled for user \<open>owner\<close>.
  A PATCH is not a creation and is left aside.
\<close>

definition handle_form ::
  "int \<Rightarrow> character_form \<Rightarrow> int \<Rightarrow> stored_persona list \<Rightarrow>
   (persona_error + stored_persona) option \<times> stored_persona list" where
  "handle_form owner form new_id store =
     (case submit_character_form form of
        Post_persona data \<Rightarrow>
          (case create_persona owner data new_id store of (r, store') \<Rightarrow> (Some r, store'))
      | Patch_persona _ _ \<Rightarrow> (None, store))"


section \<open>Sender headers (src/unnamed/part_001)\<close>

text \<open>
  The dialogue component draws the header of a message, with portrait and speaker name,
  when \<open>showSpeaker\<close> holds and \<open>isConsecutive\<close> does not.
\<close>

definition dialogue_header :: "bool \<Rightarrow> bool \<Rightarrow> bool" where
  "dialogue_header showSpeaker isConsecutive = (showSpeaker \<and> \<not> isConsecutive)"

text \<open>
  Modelled from the spec: the message list that decides \<open>isConsecutive\<close> and the
  server's message store are not among the sources. By the spec a message refers to the
  persona it was sent under, and consecutive messages under different personas (or the
  user's own identity) do not share a sender header. A message is consecutive when the
  message before it has the same sender and the same persona. The live view adds each
  message as it is sent; after a reload the view is drawn from the stored messages.
\<close>

record message =
  message_id :: int
  message_sender :: int
  message_persona :: "int option"
  message_content :: string

definition same_identity :: "message \<Rightarrow> message \<Rightarrow> bool" where
  "same_identity a b =
     (message_sender a = message_sender b \<and> message_persona a = message_persona b)"

text \<open>
  Modelled from the spec: the rows of a topic view, each the message and whether its
  header is drawn; \<open>append_message\<close> adds one message to an open view.
\<close>

fun render_after :: "message option \<Rightarrow> message list \<Rightarrow> (message \<times> bool) list" where
  "render_after prev [] = []"
| "render_after prev (m # ms) =
     (m, dialogue_header True (case prev of None \<Rightarrow> False | Some q \<Rightarrow> same_identity q m))
       # render_after (Some m) ms"

definition render_topic :: "message list \<Rightarrow> (message \<times> bool) list" where
  "render_topic ms = render_after None ms"

definition append_message :: "message \<Rightarrow> (message \<times> bool) list \<Rightarrow> (message \<times> bool) list" where
  "append_message m rows =
     rows @ [(m, dialogue_header True
                  (case rows of [] \<Rightarrow> False | _ \<Rightarrow> same_identity (fst (last rows)) m))]"

text \<open>
  Modelled from the spec: sending the messages one after the other. The server stores
  each, the open page adds
  each to its view.
\<close>

fun send_messages ::
  "message list \<Rightarrow> message list \<times> (message \<times> bool) list \<Rightarrow>
   message list \<times> (message \<times> bool) list" where
  "send_messages [] (stored, rows) = (stored, rows)"
| "send_messages (m # ms) (stored, rows) =
     send_messages ms (stored @ [m], append_message m rows)"

definition reload :: "message list \<times> (message \<times> bool) list \<Rightarrow> message list \<times> (message \<times> bool) list" where
  "reload page = (fst page, render_topic (fst page))"

text \<open>
  Modelled from the spec: the identities of the sender headers that are drawn, from top
  to bottom.
\<close>

definition sender_headers :: "(message \<times> bool) list \<Rightarrow> (int \<times> int option) list" where
  "sender_headers rows =
     map (\<lambda>r. (message_sender (fst r), message_persona (fst r))) (filter snd rows)"

section \<open>Example states\<close>

text \<open>States and events at which the theorems below are instantiated.\<close>

definition selected_state :: state where
  "selected_state =
     initial_state\<lparr>
       my_personas := [\<lparr>persona_id = 1, persona_name = ''Aragorn'', avatar_url = None,
                        color = None, bio = [], is_active = True, date_created = 0\<rparr>],
       my_personas_fetched := True,
       compose_persona_by_stream := [7 \<mapsto> Some 1],
       current_compose_persona_id := Some 1,
       change_callbacks := [Some On_personas_changed],
       compose_stream_id := Some 7,
       selector_visible := True\<rparr>"

definition gandalf :: MyPersona where
  "gandalf = \<lparr>persona_id = 1, persona_name = ''Gandalf the White'', avatar_url = None,
              color = Some ''#5e35b1'', bio = ''A wizard is never late'', is_active = True,
              date_created = 0\<rparr>"

definition frodo :: MyPersona where
  "frodo = \<lparr>persona_id = 2, persona_name = ''Frodo Baggins'', avatar_url = None,
            color = Some ''#4caf50'', bio = [], is_active = True, date_created = 0\<rparr>"

text \<open>
  The compose module initialised with its request for the list still out, after the
  event for the added persona Gandalf; and the same after the user has selected Gandalf.
\<close>

definition gandalf_added_state :: state where
  "gandalf_added_state =
     initial_state\<lparr>my_personas := [gandalf], my_personas_pending := True,
       change_callbacks := [Some On_personas_changed], requests := [None],
       selector_visible := True\<rparr>"

definition gandalf_selected_state :: state where
  "gandalf_selected_state = set_current_persona_id (Some 1) gandalf_added_state"

definition two_personas_state :: state where
  "two_personas_state =
     initial_state\<lparr>my_personas := [gandalf, frodo], my_personas_fetched := True\<rparr>"

definition repeated_id_state :: state where
  "repeated_id_state =
     initial_state\<lparr>my_personas := [gandalf, frodo, gandalf], my_personas_fetched := True\<rparr>"





definition desdemona :: invoking_user where
  "desdemona = \<lparr>invoking_user_id = 8, invoking_user_email = ''desdemona@zulip.com'',
                 invoking_user_full_name = ''Desdemona''\<rparr>"

definition testcmd_pipeline :: pipeline where
  "testcmd_pipeline =
     \<lparr>bot_commands = [\<lparr>command_bot_id = 42, command_name = ''testcmd'',
                        command_description = ''A test command for e2e testing'',
                        command_options = [''message'', ''count'']\<rparr>],
      embedded_bots = [], event_queue = [], delivery_attempts = [],
      delivery_failure_log = [], issued_interaction_ids = [],
      consumed_interaction_ids = []\<rparr>"

definition testcmd_arguments :: "string \<rightharpoonup> string" where
  "testcmd_arguments = [''message'' \<mapsto> ''hello world'', ''count'' \<mapsto> ''3'']"

definition collapsing_test :: "message list" where
  "collapsing_test =
     [\<lparr>message_id = 1, message_sender = 8, message_persona = None,
        message_content = ''Message from myself''\<rparr>,
      \<lparr>message_id = 2, message_sender = 8, message_persona = Some 1,
        message_content = ''Message from Gandalf''\<rparr>,
      \<lparr>message_id = 3, message_sender = 8, message_persona = Some 2,
        message_content = ''Message from Frodo''\<rparr>,
      \<lparr>message_id = 4, message_sender = 8, message_persona = None,
        message_content = ''Another message from myself''\<rparr>,
      \<lparr>message_id = 5, message_sender = 8, message_persona = Some 1,
        message_content = ''Gandalf speaks again''\<rparr>]"

definition aragorn_form :: character_form where
  "aragorn_form =
     \<lparr>character_name = ''Aragorn'', character_avatar_url = [], character_color = ''#6b7280'',
      character_bio = [], character_id = []\<rparr>"

definition aragorn_stored :: stored_persona where
  "aragorn_stored =
     \<lparr>stored_id = 1, stored_owner = 8, stored_name = ''Aragorn'', stored_avatar_url = None,
      stored_color = None, stored_bio = []\<rparr>"

section \<open>Sticky selection per stream\<close>

lemma sticky_after_set:
  "get_sticky_persona_for_stream t (set_compose_persona_id p (Some sid) s) =
     (if t = sid then p else get_sticky_persona_for_stream t s)"
  by (simp add: get_sticky_persona_for_stream_def set_compose_persona_id_def)

lemma sticky_after_sets:
  "t \<notin> snd ` set cs \<Longrightarrow>
   get_sticky_persona_for_stream t (set_compose_persona_ids cs s) =
     get_sticky_persona_for_stream t s"
  by (induction cs arbitrary: s) (auto simp: sticky_after_set)

lemma sticky_initial: "get_sticky_persona_for_stream t initial_state = None"
  by (simp add: get_sticky_persona_for_stream_def initial_state_def)

lemma sticky_cleared: "get_sticky_persona_for_stream t (clear_cache s) = None"
  by (simp add: get_sticky_persona_for_stream_def clear_cache_def)

text \<open>
  C9. After \<open>set_compose_persona_id(p, s)\<close> the sticky value of stream \<open>s\<close> is \<open>p\<close> and
  that of every other stream is what it was; a stream that no call has named since the
  module was loaded or its cache cleared has the sticky value \<open>null\<close>.
\<close>

theorem C9_sticky_persona_frame:
  "get_sticky_persona_for_stream sid (set_compose_persona_id p (Some sid) s) = p
   \<and> (t \<noteq> sid \<longrightarrow>
        get_sticky_persona_for_stream t (set_compose_persona_id p (Some sid) s) =
          get_sticky_persona_for_stream t s)
   \<and> (t \<notin> snd ` set cs \<longrightarrow>
        get_sticky_persona_for_stream t (set_compose_persona_ids cs initial_state) = None
        \<and> get_sticky_persona_for_stream t (set_compose_persona_ids cs (clear_cache s)) = None)"
  by (simp add: sticky_after_set sticky_after_sets sticky_initial sticky_cleared)

theorem C9_sticky_persona_frame_witness:
  "get_sticky_persona_for_stream 7 (set_compose_persona_id (Some 3) (Some 7) initial_state)
     = Some 3
   \<and> (8::int) \<noteq> 7
   \<and> get_sticky_persona_for_stream 8 (set_compose_persona_id (Some 3) (Some 7) initial_state)
     = get_sticky_persona_for_stream 8 initial_state
   \<and> (8::int) \<notin> snd ` set [(Some (3::int), 7), (None, 9)]
   \<and> get_sticky_persona_for_stream 8
       (set_compose_persona_ids [(Some 3, 7), (None, 9)] initial_state) = None
   \<and> get_sticky_persona_for_stream 8
       (set_compose_persona_ids [(Some 3, 7), (None, 9)] (clear_cache initial_state)) = None"
  using C9_sticky_persona_frame
    [of 7 "Some 3" initial_state 8 "[(Some 3, 7), (None, 9)]"]
  by simp

section \<open>The selector display and the selection\<close>

lemma set_compose_persona_id_fields [simp]:
  "current_compose_persona_id (set_compose_persona_id p sid s) = p"
  "my_personas (set_compose_persona_id p sid s) = my_personas s"
  "my_personas_fetched (set_compose_persona_id p sid s) = my_personas_fetched s"
  "my_personas_pending (set_compose_persona_id p sid s) = my_personas_pending s"
  "change_callbacks (set_compose_persona_id p sid s) = change_callbacks s"
  "compose_stream_id (set_compose_persona_id p sid s) = compose_stream_id s"
  "selector_visible (set_compose_persona_id p sid s) = selector_visible s"
  by (simp_all add: set_compose_persona_id_def Let_def split: option.splits)

lemma usd_None:
  "current_compose_persona_id s = None \<Longrightarrow>
   update_selector_display s = s\<lparr>button := yourself_button\<rparr>"
  by (subst update_selector_display.simps) (simp add: get_compose_persona_id_def)

lemma usd_found:
  "current_compose_persona_id s = Some c \<Longrightarrow>
   find (\<lambda>p. persona_id p = c) (my_personas s) = Some p \<Longrightarrow>
   update_selector_display s = s\<lparr>button := persona_button p\<rparr>"
  by (subst update_selector_display.simps)
     (simp add: get_compose_persona_id_def get_my_personas_def)

lemma usd_missing:
  "current_compose_persona_id s = Some c \<Longrightarrow>
   find (\<lambda>p. persona_id p = c) (my_personas s) = None \<Longrightarrow>
   update_selector_display s =
     (set_compose_persona_id None (compose_stream_id s) s)\<lparr>button := yourself_button\<rparr>"
  by (subst update_selector_display.simps)
     (simp add: get_compose_persona_id_def get_my_personas_def
        set_current_persona_id.simps usd_None)

lemma usd_cases:
  obtains (none) "current_compose_persona_id s = None"
      "update_selector_display s = s\<lparr>button := yourself_button\<rparr>"
  | (found) c p where "current_compose_persona_id s = Some c"
      "find (\<lambda>p. persona_id p = c) (my_personas s) = Some p"
      "update_selector_display s = s\<lparr>button := persona_button p\<rparr>"
  | (missing) c where "current_compose_persona_id s = Some c"
      "find (\<lambda>p. persona_id p = c) (my_personas s) = None"
      "update_selector_display s =
         (set_compose_persona_id None (compose_stream_id s) s)\<lparr>button := yourself_button\<rparr>"
proof (cases "current_compose_persona_id s")
  case None
  then show ?thesis using none usd_None by blast
next
  case (Some c)
  show ?thesis
  proof (cases "find (\<lambda>p. persona_id p = c) (my_personas s)")
    case None
    then show ?thesis using Some missing usd_missing by blast
  next
    case (Some p)
    then show ?thesis using \<open>current_compose_persona_id s = Some c\<close> found usd_found by blast
  qed
qed

lemma usd_frame [simp]:
  "my_personas (update_selector_display s) = my_personas s"
  "my_personas_fetched (update_selector_display s) = my_personas_fetched s"
  "my_personas_pending (update_selector_display s) = my_personas_pending s"
  "change_callbacks (update_selector_display s) = change_callbacks s"
  "compose_stream_id (update_selector_display s) = compose_stream_id s"
  "selector_visible (update_selector_display s) = selector_visible s"
  by (cases s rule: usd_cases; simp)+


lemma selection_valid_iff:
  "selection_valid s \<longleftrightarrow>
     (\<forall>c. current_compose_persona_id s = Some c \<longrightarrow> c \<in> persona_id ` set (my_personas s))"
  by (auto simp: selection_valid_def find_None_iff split: option.splits)

lemma selection_valid_cong:
  "current_compose_persona_id s' = current_compose_persona_id s \<Longrightarrow>
   my_personas s' = my_personas s \<Longrightarrow> selection_valid s' = selection_valid s"
  by (simp add: selection_valid_iff)

lemma usd_current:
  "current_compose_persona_id (update_selector_display s) =
     (case current_compose_persona_id s of
        None \<Rightarrow> None
      | Some c \<Rightarrow>
          (case find (\<lambda>p. persona_id p = c) (my_personas s) of
             None \<Rightarrow> None | Some _ \<Rightarrow> Some c))"
  by (cases s rule: usd_cases) simp_all

lemma usd_valid: "selection_valid (update_selector_display s)"
  by (simp add: selection_valid_def usd_current split: option.splits)

lemma fetch_unfetched:
  "\<not> my_personas_fetched s \<Longrightarrow>
   fetch_my_personas cb s =
     (if my_personas_pending s
      then (case cb of
              None \<Rightarrow> s
            | Some t \<Rightarrow>
                register_change_callback (One_time_callback (next_closure s) t)
                  (s\<lparr>next_closure := Suc (next_closure s)\<rparr>))
      else s\<lparr>my_personas_pending := True, requests := requests s @ [cb]\<rparr>)"
  by (subst fetch_my_personas.simps) simp

lemma ufs_dm:
  "update_for_stream None s = s\<lparr>selector_visible := my_personas s \<noteq> []\<rparr>"
  by (subst update_for_stream.simps)
     (simp add: get_my_personas_def show_selector_def hide_selector_def)

lemma ufs_fetched_empty:
  "my_personas_fetched s \<Longrightarrow> my_personas s = [] \<Longrightarrow>
   update_for_stream (Some sid) s = hide_selector s"
  by (subst update_for_stream.simps)
     (simp add: get_my_personas_def has_fetched_my_personas_def)

lemma ufs_fetched_nonempty:
  "my_personas_fetched s \<Longrightarrow> my_personas s \<noteq> [] \<Longrightarrow>
   update_for_stream (Some sid) s =
     update_selector_display
       (case get_sticky_persona_for_stream sid (show_selector s) of
          None \<Rightarrow> show_selector s
        | Some sticky_persona \<Rightarrow>
            set_compose_persona_id (Some sticky_persona) (Some sid) (show_selector s))"
  by (subst update_for_stream.simps)
     (simp add: get_my_personas_def has_fetched_my_personas_def Let_def)

lemma ufs_unfetched:
  "\<not> my_personas_fetched s \<Longrightarrow>
   update_for_stream (Some sid) s = fetch_my_personas (Some (Update_for_stream sid)) s"
  by (subst update_for_stream.simps) (simp add: has_fetched_my_personas_def)

lemma ufs_visible:
  "my_personas_fetched s \<Longrightarrow>
   selector_visible (update_for_stream (Some sid) s) = (my_personas s \<noteq> [])"
  by (cases "my_personas s = []")
     (simp_all add: ufs_fetched_empty ufs_fetched_nonempty hide_selector_def
        show_selector_def split: option.splits)


lemma ufs_my_personas [simp]:
  "my_personas (update_for_stream stream_id s) = my_personas s"
proof (cases stream_id)
  case None
  then show ?thesis by (simp add: ufs_dm)
next
  case (Some sid)
  show ?thesis
  proof (cases "my_personas_fetched s")
    case True
    then show ?thesis using Some
      by (cases "my_personas s = []")
         (simp_all add: ufs_fetched_empty ufs_fetched_nonempty hide_selector_def
            show_selector_def split: option.splits)
  next
    case False
    then show ?thesis using Some
      by (simp add: ufs_unfetched fetch_unfetched register_change_callback_def)
  qed
qed


lemma ufs_valid:
  assumes "selection_valid s"
  shows "selection_valid (update_for_stream stream_id s)"
proof (cases stream_id)
  case None
  then show ?thesis using assms by (simp add: ufs_dm selection_valid_iff)
next
  case (Some sid)
  consider (unfetched) "\<not> my_personas_fetched s"
    | (empty) "my_personas_fetched s" "my_personas s = []"
    | (nonempty) "my_personas_fetched s" "my_personas s \<noteq> []"
    by blast
  then show ?thesis
  proof cases
    case unfetched
    then show ?thesis using assms Some
      by (simp add: ufs_unfetched fetch_unfetched register_change_callback_def
          selection_valid_iff)
  next
    case empty
    then show ?thesis using assms Some
      by (simp add: ufs_fetched_empty hide_selector_def selection_valid_iff)
  next
    case nonempty
    then show ?thesis using Some by (simp add: ufs_fetched_nonempty usd_valid)
  qed
qed

lemma on_personas_changed_valid: "selection_valid (on_personas_changed s)"
  by (simp add: on_personas_changed_def Let_def ufs_valid usd_valid)

lemma run_thunk_valid: "selection_valid s \<Longrightarrow> selection_valid (run_thunk t s)"
  by (cases t) (simp add: ufs_valid)

lemma run_callback_valid: "selection_valid s \<Longrightarrow> selection_valid (run_callback cb s)"
proof (cases cb)
  case On_personas_changed
  then show ?thesis by (simp add: on_personas_changed_valid)
next
  case (One_time_callback n t)
  assume "selection_valid s"
  then have "selection_valid (run_thunk t s)" by (rule run_thunk_valid)
  then show ?thesis using One_time_callback
    by (simp add: unregister_change_callback_def selection_valid_iff)
qed


lemma notify_from_valid_aux:
  assumes "notify_from i s = Some s'"
  shows "selection_valid s \<longrightarrow> selection_valid s'"
proof (rule notify_from.raw_induct
    [where P = "\<lambda>i s s'. selection_valid s \<longrightarrow> selection_valid s'", OF _ assms])
  fix f :: "nat \<Rightarrow> state \<Rightarrow> state option" and i s s'
  assume IH: "\<And>i s y. f i s = Some y \<Longrightarrow> selection_valid s \<longrightarrow> selection_valid y"
    and body: "(if i < length (change_callbacks s)
                then (case change_callbacks s ! i of
                        None \<Rightarrow> f (Suc i) s
                      | Some cb \<Rightarrow> f (Suc i) (run_callback cb s))
                else Some s) = Some s'"
  show "selection_valid s \<longrightarrow> selection_valid s'"
  proof
    assume v: "selection_valid s"
    show "selection_valid s'"
    proof (cases "i < length (change_callbacks s)")
      case False
      then show ?thesis using body v by simp
    next
      case True
      show ?thesis
      proof (cases "change_callbacks s ! i")
        case None
        then have "f (Suc i) s = Some s'" using body True by simp
        then show ?thesis using IH v by blast
      next
        case (Some cb)
        then have "f (Suc i) (run_callback cb s) = Some s'" using body True by simp
        then show ?thesis using IH run_callback_valid [OF v] by blast
      qed
    qed
  qed
qed

lemma ufs_fetched_frame:
  assumes "my_personas_fetched s"
  shows "my_personas_fetched (update_for_stream stream_id s)"
    and "change_callbacks (update_for_stream stream_id s) = change_callbacks s"
proof -
  have "my_personas_fetched (update_for_stream stream_id s)
        \<and> change_callbacks (update_for_stream stream_id s) = change_callbacks s"
  proof (cases stream_id)
    case None
    then show ?thesis using assms by (simp add: ufs_dm)
  next
    case (Some sid)
    then show ?thesis using assms
      by (cases "my_personas s = []")
         (simp_all add: ufs_fetched_empty ufs_fetched_nonempty hide_selector_def
            show_selector_def split: option.splits)
  qed
  then show "my_personas_fetched (update_for_stream stream_id s)"
    and "change_callbacks (update_for_stream stream_id s) = change_callbacks s"
    by simp_all
qed

lemma run_callback_fetched_frame:
  assumes "my_personas_fetched s"
  shows "my_personas_fetched (run_callback cb s)"
    and "length (change_callbacks (run_callback cb s)) = length (change_callbacks s)"
proof -
  have "my_personas_fetched (run_callback cb s)
        \<and> length (change_callbacks (run_callback cb s)) = length (change_callbacks s)"
  proof (cases cb)
    case On_personas_changed
    then show ?thesis using assms
      by (simp add: on_personas_changed_def Let_def ufs_fetched_frame)
  next
    case (One_time_callback n t)
    then show ?thesis using assms
      by (cases t) (simp add: unregister_change_callback_def ufs_fetched_frame)
  qed
  then show "my_personas_fetched (run_callback cb s)"
    and "length (change_callbacks (run_callback cb s)) = length (change_callbacks s)"
    by simp_all
qed

lemma notify_from_returns:
  "my_personas_fetched s \<Longrightarrow> \<exists>s'. notify_from i s = Some s'"
proof (induction "length (change_callbacks s) - i" arbitrary: i s)
  case 0
  then show ?case by (subst notify_from.simps) simp
next
  case (Suc k)
  then have lt: "i < length (change_callbacks s)" by simp
  show ?case
  proof (cases "change_callbacks s ! i")
    case None
    have "\<exists>s'. notify_from (Suc i) s = Some s'"
      using Suc(1) [of s "Suc i"] Suc(2,3) by simp
    then show ?thesis using None lt by (subst notify_from.simps) simp
  next
    case (Some cb)
    have "\<exists>s'. notify_from (Suc i) (run_callback cb s) = Some s'"
      using Suc(1) [of "run_callback cb s" "Suc i"] Suc(2,3)
        run_callback_fetched_frame [of s cb] by simp
    then show ?thesis using Some lt by (subst notify_from.simps) simp
  qed
qed


lemma findIndex_range:
  "findIndex P xs = - 1 \<or>
   (0 \<le> findIndex P xs \<and> nat (findIndex P xs) < length xs \<and> P (xs ! nat (findIndex P xs)))"
  by (induction xs) (auto simp: Let_def nat_add_distrib)

lemma mark_stale_fields [simp]:
  "current_compose_persona_id (mark_realm_personas_stale s) = current_compose_persona_id s"
  "my_personas (mark_realm_personas_stale s) = my_personas s"
  "my_personas_fetched (mark_realm_personas_stale s) = my_personas_fetched s"
  by (simp_all add: mark_realm_personas_stale_def)

lemma mark_stale_valid [simp]:
  "selection_valid (mark_realm_personas_stale s) = selection_valid s"
  by (simp add: selection_valid_iff)

lemma add_valid:
  "selection_valid s \<Longrightarrow> selection_valid (s\<lparr>my_personas := my_personas s @ [p]\<rparr>)"
  by (auto simp: selection_valid_iff)

lemma update_valid:
  assumes "selection_valid s"
    and "findIndex (\<lambda>q. persona_id q = persona_id p) (my_personas s) \<noteq> - 1"
  shows "selection_valid
           (s\<lparr>my_personas := (my_personas s)
                [nat (findIndex (\<lambda>q. persona_id q = persona_id p) (my_personas s)) := p]\<rparr>)"
proof -
  let ?i = "nat (findIndex (\<lambda>q. persona_id q = persona_id p) (my_personas s))"
  have i: "?i < length (my_personas s)" "persona_id (my_personas s ! ?i) = persona_id p"
    using findIndex_range [of "\<lambda>q. persona_id q = persona_id p" "my_personas s"] assms(2)
    by auto
  have "map persona_id ((my_personas s)[?i := p]) = map persona_id (my_personas s)"
    using i by (simp add: map_update list_update_same_conv)
  then have "persona_id ` set ((my_personas s)[?i := p]) = persona_id ` set (my_personas s)"
    by (metis set_map)
  then show ?thesis using assms(1) by (simp add: selection_valid_iff)
qed

lemma remove_valid:
  assumes "selection_valid s"
  shows "selection_valid
           (let s1 = s\<lparr>my_personas := filter (\<lambda>p. persona_id p \<noteq> x) (my_personas s)\<rparr>
            in if current_compose_persona_id s1 = Some x
               then s1\<lparr>current_compose_persona_id := None\<rparr> else s1)"
  using assms by (auto simp: selection_valid_iff Let_def)

lemma handle_persona_event_valid:
  assumes "selection_valid s" and "handle_persona_event event s = Some s'"
  shows "selection_valid s'"
proof -
  have "\<exists>s0. selection_valid s0 \<and> (s' = s0 \<or> notify_from 0 s0 = Some s')"
  proof (cases "event_op event = ''add'' \<and> event_persona event \<noteq> None")
    case True
    then show ?thesis using assms
      by (auto simp: handle_persona_event_def notify_change_def add_valid
          intro!: exI [of _ "mark_realm_personas_stale
                      (s\<lparr>my_personas := my_personas s @ [the (event_persona event)]\<rparr>)"])
  next
    case notadd: False
    show ?thesis
    proof (cases "event_op event = ''update'' \<and> event_persona event \<noteq> None")
      case True
      let ?ix = "findIndex (\<lambda>p. persona_id p = persona_id (the (event_persona event)))
                   (my_personas s)"
      let ?s1 = "if ?ix \<noteq> - 1
                 then s\<lparr>my_personas := (my_personas s)[nat ?ix := the (event_persona event)]\<rparr>
                 else s"
      have "selection_valid ?s1" using assms(1) update_valid by simp
      moreover have "notify_from 0 (mark_realm_personas_stale ?s1) = Some s'"
        using assms(2) True notadd
        by (simp add: handle_persona_event_def notify_change_def Let_def)
      ultimately show ?thesis by (intro exI [of _ "mark_realm_personas_stale ?s1"]) simp
    next
      case notupd: False
      show ?thesis
      proof (cases "event_op event = ''remove'' \<and> event_persona_id event \<noteq> None
                    \<and> event_persona_id event \<noteq> Some 0")
        case True
        then obtain x where x: "event_persona_id event = Some x" by auto
        let ?s2 = "let s1 = s\<lparr>my_personas :=
                               filter (\<lambda>p. persona_id p \<noteq> x) (my_personas s)\<rparr>
                   in if current_compose_persona_id s1 = Some x
                      then s1\<lparr>current_compose_persona_id := None\<rparr> else s1"
        have "selection_valid ?s2" using assms(1) by (rule remove_valid)
        moreover have "notify_from 0 (mark_realm_personas_stale ?s2) = Some s'"
          using assms(2) True notadd notupd x
          by (simp add: handle_persona_event_def notify_change_def Let_def)
        ultimately show ?thesis by (intro exI [of _ "mark_realm_personas_stale ?s2"]) simp
      next
        case False
        then show ?thesis using assms notadd notupd
          by (auto simp: handle_persona_event_def)
      qed
    qed
  qed
  then show ?thesis using notify_from_valid_aux by blast
qed

lemma handle_persona_event_returns:
  assumes "my_personas_fetched s"
  shows "\<exists>s'. handle_persona_event event s = Some s'"
  using assms
  by (auto simp: handle_persona_event_def notify_change_def Let_def
      intro!: notify_from_returns)


section \<open>Missing personas and selector visibility\<close>

text \<open>
  Where the code does reset: redrawing the selector resets a selection that names no
  persona of the list and shows ``Yourself''; handling a persona event never makes a
  valid selection dangle, and the handler returns once the list has been fetched.
\<close>

lemma missing_persona_reset_paths:
  "(current_compose_persona_id s = Some c
      \<and> find (\<lambda>p. persona_id p = c) (my_personas s) = None \<longrightarrow>
        current_compose_persona_id (update_selector_display s) = None
        \<and> button (update_selector_display s) = yourself_button
        \<and> my_personas (update_selector_display s) = my_personas s)
   \<and> (selection_valid t \<and> handle_persona_event event t = Some t' \<longrightarrow> selection_valid t')
   \<and> (my_personas_fetched t \<longrightarrow> (\<exists>u. handle_persona_event event t = Some u))"
  by (auto simp: usd_missing handle_persona_event_valid handle_persona_event_returns)

lemma selected_remove:
  "handle_persona_event (remove_event 1) selected_state =
     Some (selected_state\<lparr>my_personas := [], current_compose_persona_id := None,
             selector_visible := False\<rparr>)"
  apply (simp add: handle_persona_event_def remove_event_def selected_state_def initial_state_def
      notify_change_def mark_realm_personas_stale_def Let_def)
  apply (subst notify_from.simps)
  apply (simp add: on_personas_changed_def usd_None Let_def ufs_fetched_empty hide_selector_def)
  apply (subst notify_from.simps)
  apply simp
  done

lemma ufs_visibility_ok:
  "my_personas_fetched s \<Longrightarrow> visibility_ok (update_for_stream stream_id s)"
  by (cases stream_id) (simp_all add: visibility_ok_def ufs_visible ufs_dm)

lemma on_personas_changed_frame:
  assumes "my_personas_fetched s"
  shows "visibility_ok (on_personas_changed s)"
    and "my_personas (on_personas_changed s) = my_personas s"
  using assms by (simp_all add: on_personas_changed_def Let_def ufs_visibility_ok)

lemma run_callback_visibility:
  assumes "my_personas_fetched s"
  shows "visibility_ok (run_callback cb s)"
    and "my_personas (run_callback cb s) = my_personas s"
proof -
  have "visibility_ok (run_callback cb s) \<and> my_personas (run_callback cb s) = my_personas s"
  proof (cases cb)
    case On_personas_changed
    then show ?thesis using assms on_personas_changed_frame by simp
  next
    case (One_time_callback n t)
    then show ?thesis using assms ufs_visibility_ok [of s]
      by (cases t) (simp add: unregister_change_callback_def visibility_ok_def)
  qed
  then show "visibility_ok (run_callback cb s)"
    and "my_personas (run_callback cb s) = my_personas s"
    by simp_all
qed

lemma notify_from_visibility_aux:
  assumes "notify_from i s = Some s'"
  shows "my_personas_fetched s \<longrightarrow>
         my_personas s' = my_personas s
         \<and> (visibility_ok s \<or> (\<exists>j\<ge>i. j < length (change_callbacks s)
                                   \<and> change_callbacks s ! j \<noteq> None)
            \<longrightarrow> visibility_ok s')"
proof (rule notify_from.raw_induct
    [where P = "\<lambda>i s s'. my_personas_fetched s \<longrightarrow>
         my_personas s' = my_personas s
         \<and> (visibility_ok s \<or> (\<exists>j\<ge>i. j < length (change_callbacks s)
                                   \<and> change_callbacks s ! j \<noteq> None)
            \<longrightarrow> visibility_ok s')", OF _ assms])
  fix f :: "nat \<Rightarrow> state \<Rightarrow> state option" and i s s'
  assume IH: "\<And>i s y. f i s = Some y \<Longrightarrow> my_personas_fetched s \<longrightarrow>
         my_personas y = my_personas s
         \<and> (visibility_ok s \<or> (\<exists>j\<ge>i. j < length (change_callbacks s)
                                   \<and> change_callbacks s ! j \<noteq> None)
            \<longrightarrow> visibility_ok y)"
    and body: "(if i < length (change_callbacks s)
                then (case change_callbacks s ! i of
                        None \<Rightarrow> f (Suc i) s
                      | Some cb \<Rightarrow> f (Suc i) (run_callback cb s))
                else Some s) = Some s'"
  show "my_personas_fetched s \<longrightarrow>
         my_personas s' = my_personas s
         \<and> (visibility_ok s \<or> (\<exists>j\<ge>i. j < length (change_callbacks s)
                                   \<and> change_callbacks s ! j \<noteq> None)
            \<longrightarrow> visibility_ok s')"
  proof
    assume fe: "my_personas_fetched s"
    show "my_personas s' = my_personas s
         \<and> (visibility_ok s \<or> (\<exists>j\<ge>i. j < length (change_callbacks s)
                                   \<and> change_callbacks s ! j \<noteq> None)
            \<longrightarrow> visibility_ok s')"
    proof (cases "i < length (change_callbacks s)")
      case False
      then show ?thesis using body by auto
    next
      case True
      show ?thesis
      proof (cases "change_callbacks s ! i")
        case None
        then have "f (Suc i) s = Some s'" using body True by simp
        from IH [OF this] fe
        have 1: "my_personas s' = my_personas s"
          and 2: "visibility_ok s \<or> (\<exists>j\<ge>Suc i. j < length (change_callbacks s)
                                   \<and> change_callbacks s ! j \<noteq> None)
            \<longrightarrow> visibility_ok s'"
          by blast+
        have "\<exists>j\<ge>Suc i. j < length (change_callbacks s) \<and> change_callbacks s ! j \<noteq> None"
          if "\<exists>j\<ge>i. j < length (change_callbacks s) \<and> change_callbacks s ! j \<noteq> None"
        proof -
          from that obtain j where j: "j \<ge> i" "j < length (change_callbacks s)"
            "change_callbacks s ! j \<noteq> None" by blast
          then have "j \<noteq> i" using None by auto
          then show ?thesis using j by (intro exI [of _ j]) simp
        qed
        then show ?thesis using 1 2 by blast
      next
        case (Some cb)
        then have "f (Suc i) (run_callback cb s) = Some s'" using body True by simp
        from IH [OF this] run_callback_fetched_frame(1) [OF fe, of cb]
          run_callback_visibility [OF fe, of cb]
        show ?thesis by simp
      qed
    qed
  qed
qed

lemma handle_remove_visibility:
  assumes "my_personas_fetched t"
    and "Some On_personas_changed \<in> set (change_callbacks t)"
    and "x \<noteq> 0"
    and "handle_persona_event (remove_event x) t = Some t'"
  shows "my_personas t' = filter (\<lambda>p. persona_id p \<noteq> x) (my_personas t)"
    and "selector_visible t' = (my_personas t' \<noteq> [])"
proof -
  let ?s2 = "mark_realm_personas_stale
               (let s1 = t\<lparr>my_personas := filter (\<lambda>p. persona_id p \<noteq> x) (my_personas t)\<rparr>
                in if current_compose_persona_id s1 = Some x
                   then s1\<lparr>current_compose_persona_id := None\<rparr> else s1)"
  have n: "notify_from 0 ?s2 = Some t'"
    using assms(3,4)
    by (simp add: handle_persona_event_def remove_event_def notify_change_def Let_def)
  have fe: "my_personas_fetched ?s2" using assms(1) by (simp add: Let_def)
  have cb: "change_callbacks ?s2 = change_callbacks t"
    by (simp add: mark_realm_personas_stale_def Let_def)
  obtain j where "j < length (change_callbacks t)"
    "change_callbacks t ! j = Some On_personas_changed"
    using assms(2) by (auto simp: in_set_conv_nth)
  then have "\<exists>j\<ge>0. j < length (change_callbacks ?s2) \<and> change_callbacks ?s2 ! j \<noteq> None"
    using cb by auto
  then have "my_personas t' = my_personas ?s2" and "visibility_ok t'"
    using notify_from_visibility_aux [OF n] fe by blast+
  then show "my_personas t' = filter (\<lambda>p. persona_id p \<noteq> x) (my_personas t)"
    and "selector_visible t' = (my_personas t' \<noteq> [])"
    by (simp_all add: visibility_ok_def Let_def)
qed


text \<open>
  C7. With the persona list fetched, \<open>update_for_stream\<close> for a stream leaves the
  selector hidden when the list is empty and shown when it is not; so does the update
  for a direct message, where no stream is given. In particular, with the compose
  module's callback registered, a ``remove'' event is handled to the end and leaves the
  selector hidden when it removed the last persona, shown when personas remain.
\<close>

theorem C7_selector_hidden_iff_no_personas:
  "(my_personas_fetched s \<longrightarrow>
      selector_visible (update_for_stream (Some sid) s) = (my_personas s \<noteq> []))
   \<and> selector_visible (update_for_stream None s) = (my_personas s \<noteq> [])
   \<and> (my_personas_fetched t \<and> Some On_personas_changed \<in> set (change_callbacks t)
        \<and> x \<noteq> 0 \<longrightarrow>
        (\<exists>t'. handle_persona_event (remove_event x) t = Some t'
              \<and> my_personas t' = filter (\<lambda>p. persona_id p \<noteq> x) (my_personas t)
              \<and> selector_visible t' = (my_personas t' \<noteq> [])))"
proof (intro conjI impI)
  assume "my_personas_fetched s"
  then show "selector_visible (update_for_stream (Some sid) s) = (my_personas s \<noteq> [])"
    by (rule ufs_visible)
next
  show "selector_visible (update_for_stream None s) = (my_personas s \<noteq> [])"
    by (simp add: ufs_dm)
next
  assume a: "my_personas_fetched t \<and> Some On_personas_changed \<in> set (change_callbacks t)
        \<and> x \<noteq> 0"
  then obtain t' where t': "handle_persona_event (remove_event x) t = Some t'"
    using handle_persona_event_returns by blast
  then show "\<exists>t'. handle_persona_event (remove_event x) t = Some t'
              \<and> my_personas t' = filter (\<lambda>p. persona_id p \<noteq> x) (my_personas t)
              \<and> selector_visible t' = (my_personas t' \<noteq> [])"
    using a handle_remove_visibility [of t x t'] by blast
qed

theorem C7_selector_hidden_iff_no_personas_witness:
  "my_personas_fetched selected_state
   \<and> selector_visible (update_for_stream (Some 7) selected_state)
   \<and> my_personas_fetched (selected_state\<lparr>my_personas := []\<rparr>)
   \<and> \<not> selector_visible (update_for_stream (Some 7) (selected_state\<lparr>my_personas := []\<rparr>))
   \<and> Some On_personas_changed \<in> set (change_callbacks selected_state)
   \<and> (1::int) \<noteq> 0
   \<and> (\<exists>t'. handle_persona_event (remove_event 1) selected_state = Some t'
            \<and> my_personas t' = [] \<and> \<not> selector_visible t')"
proof -
  have f: "my_personas_fetched selected_state"
    and c: "Some On_personas_changed \<in> set (change_callbacks selected_state)"
    and m: "filter (\<lambda>p. persona_id p \<noteq> 1) (my_personas selected_state) = []"
    and n: "my_personas selected_state \<noteq> []"
    by (simp_all add: selected_state_def initial_state_def)
  have e: "my_personas_fetched (selected_state\<lparr>my_personas := []\<rparr>)"
    using f by simp
  have "\<exists>t'. handle_persona_event (remove_event 1) selected_state = Some t'
            \<and> my_personas t' = [] \<and> \<not> selector_visible t'"
    using C7_selector_hidden_iff_no_personas [of selected_state 7 selected_state 1] f c m
    by auto
  moreover have "selector_visible (update_for_stream (Some 7) selected_state)"
    using C7_selector_hidden_iff_no_personas [of selected_state 7] f n by blast
  moreover have
    "\<not> selector_visible (update_for_stream (Some 7) (selected_state\<lparr>my_personas := []\<rparr>))"
    using C7_selector_hidden_iff_no_personas [of "selected_state\<lparr>my_personas := []\<rparr>" 7] e
    by simp
  ultimately show ?thesis using f c e by simp
qed

section \<open>A persona event while the list is being fetched\<close>

lemma callbacks_fresh_iff:
  "callbacks_fresh s \<longleftrightarrow>
     (\<forall>n t. Some (One_time_callback n t) \<in> set (change_callbacks s) \<longrightarrow> n < next_closure s)"
  by (auto simp: callbacks_fresh_def split: option.splits callback.splits)

lemma live_callback_iff:
  "live_callback s e \<longleftrightarrow>
     (e = Some On_personas_changed \<and> compose_stream_id s \<noteq> None)
     \<or> (\<exists>n t. e = Some (One_time_callback n t))"
  by (auto simp: live_callback_def split: option.splits callback.splits)

lemma usd_next_closure [simp]:
  "next_closure (update_selector_display s) = next_closure s"
  by (cases s rule: usd_cases) (simp_all add: set_compose_persona_id_def Let_def split: option.splits)

lemma ufs_pending_registers:
  assumes "\<not> my_personas_fetched s" and "my_personas_pending s" and "callbacks_fresh s"
  shows "update_for_stream (Some sid) s =
           s\<lparr>next_closure := Suc (next_closure s),
             change_callbacks := change_callbacks s @
               [Some (One_time_callback (next_closure s) (Update_for_stream sid))]\<rparr>"
proof -
  have "Some (One_time_callback (next_closure s) (Update_for_stream sid))
          \<notin> set (change_callbacks s)"
    using assms(3) by (fastforce simp: callbacks_fresh_iff)
  then show ?thesis using assms(1,2)
    by (simp add: ufs_unfetched fetch_unfetched register_change_callback_def)
qed

lemma fetch_in_flight_step:
  assumes "fetch_in_flight i s" and "i < length (change_callbacks s)"
    and "change_callbacks s ! i = Some cb"
  shows "fetch_in_flight (Suc i) (run_callback cb s)"
proof (cases cb)
  case On_personas_changed
  let ?u = "update_selector_display s"
  have u: "\<not> my_personas_fetched ?u" "my_personas_pending ?u" "callbacks_fresh ?u"
    using assms(1) by (simp_all add: fetch_in_flight_def callbacks_fresh_iff)
  show ?thesis
  proof (cases "compose_stream_id s")
    case None
    have "\<not> live_callback s (change_callbacks s ! i)"
      using assms(3) On_personas_changed None by (simp add: live_callback_iff)
    then have "list_ex (live_callback s) (drop (Suc i) (change_callbacks s))"
      using assms(1,2) by (simp add: fetch_in_flight_def Cons_nth_drop_Suc [symmetric])
    then show ?thesis using On_personas_changed None u
      by (simp add: on_personas_changed_def Let_def ufs_dm fetch_in_flight_def
          callbacks_fresh_iff live_callback_iff list_ex_iff)
  next
    case (Some sid)
    then show ?thesis using On_personas_changed u assms(2)
      by (auto simp: on_personas_changed_def Let_def ufs_pending_registers fetch_in_flight_def
          callbacks_fresh_iff live_callback_iff list_ex_iff less_Suc_eq)
  qed
next
  case (One_time_callback n t)
  obtain sid where t: "t = Update_for_stream sid" by (cases t)
  have s: "\<not> my_personas_fetched s" "my_personas_pending s" "callbacks_fresh s"
    using assms(1) by (simp_all add: fetch_in_flight_def)
  have "Some (One_time_callback n t) \<in> set (change_callbacks s)"
    using assms(2,3) One_time_callback by (metis nth_mem)
  then have n: "n < next_closure s"
    using s(3) by (fastforce simp: callbacks_fresh_iff)
  show ?thesis using One_time_callback t s n assms(2)
    by (auto simp: ufs_pending_registers unregister_change_callback_def fetch_in_flight_def
        callbacks_fresh_iff live_callback_iff list_ex_iff less_Suc_eq)
qed

lemma fetch_in_flight_skip:
  assumes "fetch_in_flight i s" and "i < length (change_callbacks s)"
    and "change_callbacks s ! i = None"
  shows "fetch_in_flight (Suc i) s"
proof -
  have "\<not> live_callback s (change_callbacks s ! i)"
    using assms(3) by (simp add: live_callback_iff)
  then show ?thesis using assms(1,2)
    by (simp add: fetch_in_flight_def Cons_nth_drop_Suc [symmetric])
qed

lemma fetch_in_flight_bound:
  "fetch_in_flight i s \<Longrightarrow> i < length (change_callbacks s)"
  by (cases "i < length (change_callbacks s)") (simp_all add: fetch_in_flight_def)

lemma notify_from_in_flight_aux:
  assumes "notify_from i s = Some s'"
  shows "\<not> fetch_in_flight i s"
proof (rule notify_from.raw_induct
    [where P = "\<lambda>i s s'. \<not> fetch_in_flight i s", OF _ assms])
  fix f :: "nat \<Rightarrow> state \<Rightarrow> state option" and i s s'
  assume IH: "\<And>i s y. f i s = Some y \<Longrightarrow> \<not> fetch_in_flight i s"
    and body: "(if i < length (change_callbacks s)
                then (case change_callbacks s ! i of
                        None \<Rightarrow> f (Suc i) s
                      | Some cb \<Rightarrow> f (Suc i) (run_callback cb s))
                else Some s) = Some s'"
  show "\<not> fetch_in_flight i s"
  proof
    assume inv: "fetch_in_flight i s"
    then have lt: "i < length (change_callbacks s)" by (rule fetch_in_flight_bound)
    show False
    proof (cases "change_callbacks s ! i")
      case None
      then have "f (Suc i) s = Some s'" using body lt by simp
      then show False using IH fetch_in_flight_skip [OF inv lt None] by blast
    next
      case (Some cb)
      then have "f (Suc i) (run_callback cb s) = Some s'" using body lt by simp
      then show False using IH fetch_in_flight_step [OF inv lt Some] by blast
    qed
  qed
qed

lemma notify_change_never_returns:
  "fetch_in_flight 0 s \<Longrightarrow> notify_change s = None"
  using notify_from_in_flight_aux [of 0 s] by (cases "notify_from 0 s") (auto simp: notify_change_def)


text \<open>
  An instance: the compose module has been initialised with a stream in the compose box,
  its request for the list is still out, and a persona event arrives. Each one-time
  callback that \<open>notify_change\<close> reaches registers the next one, and the handler never
  returns.
\<close>

lemma event_during_first_fetch_never_returns:
  "handle_persona_event (remove_event 1)
     (initialize (initial_state\<lparr>compose_stream_id := Some 7\<rparr>)) = None"
proof -
  have "fetch_in_flight 0
          (mark_realm_personas_stale
             (initialize (initial_state\<lparr>compose_stream_id := Some 7\<rparr>)))"
    by (simp add: fetch_in_flight_def callbacks_fresh_def live_callback_def initialize_def
        initial_state_def register_change_callback_def fetch_my_personas.simps
        mark_realm_personas_stale_def)
  then have "notify_change
          (mark_realm_personas_stale
             (initialize (initial_state\<lparr>compose_stream_id := Some 7\<rparr>))) = None"
    by (rule notify_change_never_returns)
  then show ?thesis
    by (simp add: handle_persona_event_def remove_event_def Let_def initialize_def
        initial_state_def register_change_callback_def fetch_my_personas.simps)
qed

section \<open>A selection left without its persona\<close>

text \<open>
  The states of the instance: the compose module has been initialised, its request for
  the list is still out, the event for the new persona Gandalf has been handled, and the
  user has picked Gandalf in the selector.
\<close>

lemma gandalf_added_reached:
  "handle_persona_event (add_event gandalf) (initialize initial_state) =
     Some gandalf_added_state"
  apply (simp add: handle_persona_event_def add_event_def initialize_def initial_state_def
      register_change_callback_def fetch_my_personas.simps notify_change_def
      mark_realm_personas_stale_def Let_def gandalf_added_state_def)
  apply (subst notify_from.simps)
  apply (simp add: on_personas_changed_def usd_None Let_def update_for_stream.simps
      get_my_personas_def show_selector_def)
  apply (subst notify_from.simps)
  apply simp
  done

lemma gandalf_selected_eq:
  "gandalf_selected_state =
     gandalf_added_state\<lparr>current_compose_persona_id := Some 1,
       button := persona_button gandalf\<rparr>"
  apply (simp add: gandalf_selected_state_def set_current_persona_id.simps
     gandalf_added_state_def initial_state_def set_compose_persona_id_def Let_def)
  apply (subst update_selector_display.simps)
  apply (simp add: get_compose_persona_id_def get_my_personas_def gandalf_def)
  done

lemma error_state:
  "my_personas_error None gandalf_selected_state =
     gandalf_selected_state\<lparr>my_personas := [], my_personas_fetched := True,
                  my_personas_pending := False\<rparr>"
  by (simp add: my_personas_error_def Let_def)

lemma error_then_update_for_stream:
  "update_for_stream stream_id (my_personas_error None gandalf_selected_state) =
     (my_personas_error None gandalf_selected_state)\<lparr>selector_visible := False\<rparr>"
  by (cases stream_id)
     (simp_all add: error_state update_for_stream.simps get_my_personas_def
        has_fetched_my_personas_def hide_selector_def)

lemma success_resets:
  "my_personas_success None [] gandalf_selected_state =
     Some (gandalf_selected_state\<lparr>my_personas := [], my_personas_fetched := True,
             my_personas_pending := False, current_compose_persona_id := None,
             button := yourself_button, selector_visible := False\<rparr>)"
  apply (simp add: my_personas_success_def Let_def notify_change_def)
  apply (subst notify_from.simps)
  apply (simp add: gandalf_selected_eq gandalf_added_state_def initial_state_def
      on_personas_changed_def Let_def)
  apply (subst update_selector_display.simps)
  apply (simp add: get_compose_persona_id_def get_my_personas_def
      set_current_persona_id.simps set_compose_persona_id_def Let_def usd_None
      update_for_stream.simps hide_selector_def)
  apply (subst notify_from.simps)
  apply simp
  done

lemma remove_during_fetch_never_returns:
  "handle_persona_event (remove_event 1)
     (gandalf_selected_state\<lparr>compose_stream_id := Some 7\<rparr>) = None"
proof -
  let ?s = "gandalf_selected_state\<lparr>compose_stream_id := Some 7, my_personas := [],
              current_compose_persona_id := None\<rparr>"
  have "fetch_in_flight 0 (mark_realm_personas_stale ?s)"
    by (simp add: fetch_in_flight_def callbacks_fresh_def live_callback_def
        gandalf_selected_eq gandalf_added_state_def initial_state_def
        mark_realm_personas_stale_def)
  then have "notify_change (mark_realm_personas_stale ?s) = None"
    by (rule notify_change_never_returns)
  then show ?thesis
    by (simp add: handle_persona_event_def remove_event_def Let_def gandalf_selected_eq
        gandalf_added_state_def initial_state_def gandalf_def)
qed

text \<open>
  C6. The code does not always reset a selection whose persona is gone. While the
  first request for the list is out, the event for the new persona Gandalf arrives and
  the user selects Gandalf. When the request then fails, the error handler empties the
  list and calls no change callback: the selection still names Gandalf, who is not in
  the list, and it still does after \<open>update_for_stream\<close>, for a stream and for a direct
  message, because that function returns at the empty list before it redraws the
  selector. The success handler, given the same state and an empty list, does reset
  the selection. And when the remove event for Gandalf arrives while the request is
  out and a stream is in the compose box, the handler never returns.
\<close>

theorem C6_selection_left_dangling:
  "handle_persona_event (add_event gandalf) (initialize initial_state) =
     Some gandalf_added_state
   \<and> current_compose_persona_id gandalf_selected_state = Some 1
   \<and> selection_valid gandalf_selected_state
   \<and> my_personas (my_personas_error None gandalf_selected_state) = []
   \<and> current_compose_persona_id (my_personas_error None gandalf_selected_state) = Some 1
   \<and> \<not> selection_valid (my_personas_error None gandalf_selected_state)
   \<and> current_compose_persona_id
       (update_for_stream (Some 7) (my_personas_error None gandalf_selected_state)) = Some 1
   \<and> current_compose_persona_id
       (update_for_stream None (my_personas_error None gandalf_selected_state)) = Some 1
   \<and> map_option current_compose_persona_id
       (my_personas_success None [] gandalf_selected_state) = Some None
   \<and> handle_persona_event (remove_event 1)
       (gandalf_selected_state\<lparr>compose_stream_id := Some 7\<rparr>) = None"
proof -
  have sel: "current_compose_persona_id gandalf_selected_state = Some 1"
    and val: "selection_valid gandalf_selected_state"
    by (simp_all add: gandalf_selected_eq selection_valid_def gandalf_added_state_def
        gandalf_def)
  have err: "my_personas (my_personas_error None gandalf_selected_state) = []"
    "current_compose_persona_id (my_personas_error None gandalf_selected_state) = Some 1"
    "\<not> selection_valid (my_personas_error None gandalf_selected_state)"
    using sel by (simp_all add: error_state selection_valid_def)
  have later: "current_compose_persona_id
       (update_for_stream stream_id (my_personas_error None gandalf_selected_state)) = Some 1"
    for stream_id
    using err(2) by (simp add: error_then_update_for_stream)
  have succ: "map_option current_compose_persona_id
       (my_personas_success None [] gandalf_selected_state) = Some None"
    by (simp add: success_resets)
  show ?thesis
    using gandalf_added_reached sel val err later succ remove_during_fetch_never_returns
    by blast
qed

section \<open>Cycling through the personas\<close>

lemma findIndex_distinct:
  "distinct (map f xs) \<Longrightarrow> k < length xs \<Longrightarrow>
   findIndex (\<lambda>p. f p = f (xs ! k)) xs = int k"
proof (induction xs arbitrary: k)
  case Nil
  then show ?case by simp
next
  case (Cons x xs)
  show ?case
  proof (cases k)
    case 0
    then show ?thesis by simp
  next
    case (Suc j)
    then have j: "j < length xs" using Cons.prems by simp
    then have "f (xs ! j) \<in> f ` set xs" by simp
    then have "f x \<noteq> f (xs ! j)" using Cons.prems(1) by auto
    moreover have "findIndex (\<lambda>p. f p = f (xs ! j)) xs = int j"
      using Cons.IH [of j] Cons.prems(1) j by simp
    ultimately show ?thesis using Suc by (simp add: Let_def)
  qed
qed

lemma find_nth:
  "k < length xs \<Longrightarrow> find (\<lambda>p. f p = f (xs ! k)) xs \<noteq> None"
  by (simp add: find_None_iff) (metis nth_mem)

lemma scp_my_personas [simp]:
  "my_personas (set_current_persona_id p s) = my_personas s"
  by (simp add: set_current_persona_id.simps)

lemma scp_current:
  "current_compose_persona_id (set_current_persona_id p s) =
     (case p of
        None \<Rightarrow> None
      | Some c \<Rightarrow>
          (case find (\<lambda>q. persona_id q = c) (my_personas s) of
             None \<Rightarrow> None | Some _ \<Rightarrow> Some c))"
  by (cases p) (simp_all add: set_current_persona_id.simps usd_current)

lemma cycle_my_personas [simp]: "my_personas (cycle_persona s) = my_personas s"
  by (simp add: cycle_persona_def Let_def get_my_personas_def split: option.splits)

lemma cycle_empty: "my_personas s = [] \<Longrightarrow> cycle_persona s = s"
  by (simp add: cycle_persona_def get_my_personas_def)

lemma cycle_from_yourself:
  "my_personas s \<noteq> [] \<Longrightarrow> current_compose_persona_id s = None \<Longrightarrow>
   current_compose_persona_id (cycle_persona s) = Some (persona_id (my_personas s ! 0))"
  using find_nth [of 0 "my_personas s" persona_id]
  by (auto simp: cycle_persona_def get_my_personas_def get_compose_persona_id_def
      scp_current split: option.splits)

lemma cycle_from_persona:
  assumes "distinct (map persona_id (my_personas s))"
    and "k < length (my_personas s)"
    and "current_compose_persona_id s = Some (persona_id (my_personas s ! k))"
  shows "current_compose_persona_id (cycle_persona s) =
           (if Suc k = length (my_personas s) then None
            else Some (persona_id (my_personas s ! Suc k)))"
proof -
  have ix: "findIndex (\<lambda>p. persona_id p = persona_id (my_personas s ! k)) (my_personas s) = int k"
    using assms(1,2) by (rule findIndex_distinct)
  show ?thesis
  proof (cases "Suc k = length (my_personas s)")
    case True
    then show ?thesis using assms(2,3) ix
      by (auto simp: cycle_persona_def get_my_personas_def get_compose_persona_id_def
          scp_current Let_def)
  next
    case False
    then have "Suc k < length (my_personas s)" using assms(2) by simp
    then show ?thesis
      using assms(2,3) ix False find_nth [of "Suc k" "my_personas s" persona_id]
      by (auto simp: cycle_persona_def get_my_personas_def get_compose_persona_id_def
          scp_current Let_def nat_add_distrib split: option.splits)
  qed
qed

lemma cycle_step:
  assumes "distinct (map persona_id (my_personas s))"
    and "my_personas s \<noteq> []"
    and "i \<le> length (my_personas s)"
    and "current_compose_persona_id s =
           (None # map (\<lambda>p. Some (persona_id p)) (my_personas s)) ! i"
  shows "current_compose_persona_id (cycle_persona s) =
           (None # map (\<lambda>p. Some (persona_id p)) (my_personas s))
             ! (Suc i mod Suc (length (my_personas s)))"
proof (cases i)
  case 0
  then show ?thesis using assms cycle_from_yourself [of s]
    by (simp add: mod_Suc)
next
  case (Suc k)
  then have k: "k < length (my_personas s)" using assms(3) by simp
  then have cur: "current_compose_persona_id s = Some (persona_id (my_personas s ! k))"
    using assms(4) Suc by simp
  show ?thesis
    using cycle_from_persona [OF assms(1) k cur] Suc k
    by (auto simp: mod_Suc)
qed

lemma cycle_iterate:
  assumes "distinct (map persona_id (my_personas s))"
    and "my_personas s \<noteq> []"
    and "i \<le> length (my_personas s)"
    and "current_compose_persona_id s =
           (None # map (\<lambda>p. Some (persona_id p)) (my_personas s)) ! i"
  shows "my_personas ((cycle_persona ^^ k) s) = my_personas s
         \<and> current_compose_persona_id ((cycle_persona ^^ k) s) =
           (None # map (\<lambda>p. Some (persona_id p)) (my_personas s))
             ! ((i + k) mod Suc (length (my_personas s)))"
proof (induction k)
  case 0
  then show ?case using assms(3,4) by simp
next
  case (Suc k)
  let ?t = "(cycle_persona ^^ k) s"
  let ?n = "length (my_personas s)"
  have mp: "my_personas ?t = my_personas s" using Suc by simp
  have le: "(i + k) mod Suc ?n \<le> length (my_personas ?t)" using mp
    by (metis less_Suc_eq_le mod_less_divisor zero_less_Suc)
  have "current_compose_persona_id (cycle_persona ?t) =
          (None # map (\<lambda>p. Some (persona_id p)) (my_personas ?t))
            ! (Suc ((i + k) mod Suc ?n) mod Suc (length (my_personas ?t)))"
    using cycle_step [of ?t "(i + k) mod Suc ?n"] assms(1,2) mp le Suc by simp
  then show ?case using mp by (simp add: mod_Suc_eq)
qed


lemma cycle_current:
  "current_compose_persona_id (cycle_persona s) =
     (if my_personas s = [] then current_compose_persona_id s
      else (case current_compose_persona_id s of
              None \<Rightarrow> Some (persona_id (my_personas s ! 0))
            | Some cur \<Rightarrow>
                (if findIndex (\<lambda>p. persona_id p = cur) (my_personas s) = - 1
                    \<or> findIndex (\<lambda>p. persona_id p = cur) (my_personas s)
                        = int (length (my_personas s)) - 1
                 then None
                 else Some (persona_id (my_personas s
                        ! nat (findIndex (\<lambda>p. persona_id p = cur) (my_personas s) + 1))))))"
proof (cases "my_personas s = []")
  case True
  then show ?thesis by (simp add: cycle_empty)
next
  case ne: False
  show ?thesis
  proof (cases "current_compose_persona_id s")
    case None
    then show ?thesis using ne cycle_from_yourself by simp
  next
    case (Some cur)
    let ?ix = "findIndex (\<lambda>p. persona_id p = cur) (my_personas s)"
    show ?thesis
    proof (cases "?ix = - 1 \<or> ?ix = int (length (my_personas s)) - 1")
      case True
      then show ?thesis using ne Some
        by (simp add: cycle_persona_def get_my_personas_def get_compose_persona_id_def
            scp_current Let_def)
    next
      case False
      then have "nat (?ix + 1) < length (my_personas s)"
        using findIndex_range [of "\<lambda>p. persona_id p = cur" "my_personas s"] by auto
      then have "find (\<lambda>q. persona_id q = persona_id (my_personas s ! nat (?ix + 1)))
                   (my_personas s) \<noteq> None"
        by (rule find_nth)
      then show ?thesis using ne Some False
        by (auto simp: cycle_persona_def get_my_personas_def get_compose_persona_id_def
            scp_current Let_def)
    qed
  qed
qed

text \<open>
  A list that holds one id twice is reached when the list is fetched and an ``add'' event
  for a persona of that list follows: the handler appends without looking for the id.
\<close>

lemma repeated_id_state_reached:
  "my_personas_success None [gandalf, frodo] initial_state = Some two_personas_state"
  "handle_persona_event (add_event gandalf) two_personas_state = Some repeated_id_state"
  by (simp_all add: my_personas_success_def handle_persona_event_def add_event_def
      two_personas_state_def repeated_id_state_def initial_state_def notify_change_def
      mark_realm_personas_stale_def notify_from.simps)

text \<open>
  With the list Gandalf, Frodo, Gandalf (ids 1, 2, 1), cycling from ``Yourself'' gives
  1, 2, 1, 2: after the last entry comes Frodo, not ``Yourself'', and four steps do not
  lead back to the start.
\<close>

theorem C8_cycle_persona_counterexample:
  "length (my_personas repeated_id_state) = 3
   \<and> current_compose_persona_id repeated_id_state = None
   \<and> current_compose_persona_id ((cycle_persona ^^ 3) repeated_id_state) = Some 1
   \<and> current_compose_persona_id ((cycle_persona ^^ 4) repeated_id_state) = Some 2"
  by (simp add: eval_nat_numeral cycle_current)
     (simp add: repeated_id_state_def initial_state_def gandalf_def frodo_def)

text \<open>
  C8 (amended). For a non-empty persona list whose ids are pairwise distinct,
  \<open>cycle_persona\<close> moves the selection one place along Yourself, first persona, ...,
  last persona and from the last back to Yourself, leaving the list as it is; so
  \<open>n + 1\<close> applications, started at any place of that cycle, return the selection to
  its starting value. With an empty list \<open>cycle_persona\<close> changes nothing.
\<close>

theorem C8_cycle_persona_distinct_ids:
  "(distinct (map persona_id (my_personas s)) \<and> my_personas s \<noteq> []
      \<and> i \<le> length (my_personas s)
      \<and> current_compose_persona_id s =
          (None # map (\<lambda>p. Some (persona_id p)) (my_personas s)) ! i \<longrightarrow>
        current_compose_persona_id (cycle_persona s) =
          (None # map (\<lambda>p. Some (persona_id p)) (my_personas s))
            ! (Suc i mod Suc (length (my_personas s)))
        \<and> my_personas (cycle_persona s) = my_personas s
        \<and> current_compose_persona_id ((cycle_persona ^^ Suc (length (my_personas s))) s) =
            current_compose_persona_id s)
   \<and> (my_personas s = [] \<longrightarrow> cycle_persona s = s)"
proof (intro conjI impI)
  assume a: "distinct (map persona_id (my_personas s)) \<and> my_personas s \<noteq> []
      \<and> i \<le> length (my_personas s)
      \<and> current_compose_persona_id s =
          (None # map (\<lambda>p. Some (persona_id p)) (my_personas s)) ! i"
  then show "current_compose_persona_id (cycle_persona s) =
          (None # map (\<lambda>p. Some (persona_id p)) (my_personas s))
            ! (Suc i mod Suc (length (my_personas s)))"
    using cycle_step [of s i] by blast
  show "my_personas (cycle_persona s) = my_personas s" by simp
  have "current_compose_persona_id ((cycle_persona ^^ Suc (length (my_personas s))) s) =
          (None # map (\<lambda>p. Some (persona_id p)) (my_personas s))
            ! ((i + Suc (length (my_personas s))) mod Suc (length (my_personas s)))"
    using cycle_iterate [of s i "Suc (length (my_personas s))"] a by blast
  moreover have "(i + Suc (length (my_personas s))) mod Suc (length (my_personas s)) = i"
    using a by (metis le_imp_less_Suc mod_add_self2 mod_less)
  ultimately show "current_compose_persona_id ((cycle_persona ^^ Suc (length (my_personas s))) s) =
            current_compose_persona_id s"
    using a by simp
next
  assume "my_personas s = []"
  then show "cycle_persona s = s" by (rule cycle_empty)
qed

theorem C8_cycle_persona_distinct_ids_witness:
  "distinct (map persona_id (my_personas two_personas_state))
   \<and> my_personas two_personas_state \<noteq> []
   \<and> (0::nat) \<le> length (my_personas two_personas_state)
   \<and> current_compose_persona_id two_personas_state = None
   \<and> current_compose_persona_id (cycle_persona two_personas_state) = Some 1
   \<and> current_compose_persona_id ((cycle_persona ^^ 3) two_personas_state) = None
   \<and> my_personas initial_state = []
   \<and> cycle_persona initial_state = initial_state"
  using C8_cycle_persona_distinct_ids [of two_personas_state 0]
    C8_cycle_persona_distinct_ids [of initial_state 0]
  by (simp add: eval_nat_numeral)
     (simp add: two_personas_state_def initial_state_def gandalf_def frodo_def)


section \<open>The puppet-aware pill module against the plain one\<close>

lemma puppet_ids_of_simps [simp]:
  "puppet_ids_of [] = []"
  "puppet_ids_of (xs @ [User_pill u]) = puppet_ids_of xs"
  "puppet_ids_of (xs @ [User_group_pill g]) = puppet_ids_of xs"
  by (simp_all add: puppet_ids_of_def)



lemma on_pill_change_plain_widget [simp]:
  "widget (on_pill_change_plain e st) = widget st"
  by (simp add: on_pill_change_plain_def update_compose_state_plain_def Let_def
      split: option.splits)







lemma set_from_user_ids_plain_widget:
  "widget st \<noteq> None \<Longrightarrow> widget (set_from_user_ids_plain e user_ids st) \<noteq> None"
proof -
  have "widget st \<noteq> None \<Longrightarrow>
        widget (fold (\<lambda>user_id st'. case maybe_get_user_by_id e user_id of
                 None \<Rightarrow> st'
               | Some person \<Rightarrow> append_person (on_pill_change_plain e) person st')
            user_ids st) \<noteq> None"
    by (induction user_ids arbitrary: st)
       (auto simp: append_person_def appendValidatedData_def split: option.splits)
  then show "widget st \<noteq> None \<Longrightarrow> widget (set_from_user_ids_plain e user_ids st) \<noteq> None"
    by (simp add: set_from_user_ids_plain_def)
qed

lemma set_from_puppet_ids_Nil [simp]: "set_from_puppet_ids e [] st = st"
  by (simp add: set_from_puppet_ids_def split: option.splits)


lemma same_pills_compose [simp]:
  "same_pills (a\<lparr>compose := x\<rparr>) b = same_pills a b"
  "same_pills a (b\<lparr>compose := y\<rparr>) = same_pills a b"
  by (simp_all add: same_pills_def)












section \<open>Duplicate persona names\<close>

lemma owns_name_append:
  "owns_name owner n (store @ [p]) \<longleftrightarrow>
     owns_name owner n store \<or> (stored_owner p = owner \<and> stored_name p = n)"
  by (auto simp: owns_name_def find_None_iff)

lemma owns_name_iff:
  "owns_name owner n store \<longleftrightarrow> (owner, n) \<in> set (map (\<lambda>p. (stored_owner p, stored_name p)) store)"
  by (auto simp: owns_name_def find_None_iff)

text \<open>
  C3. Creating a persona under a name its owner already has fails with the duplicate-name
  error and leaves the store as it was. In particular, of two submissions of the
  character form with the same name, the second fails so. Creation keeps the names of
  each owner distinct.
\<close>

theorem C3_duplicate_persona_name:
  "(owns_name owner (data_name data) store \<longrightarrow>
      create_persona owner data new_id store = (Inl Duplicate_persona_name, store))
   \<and> (character_id first_form = [] \<and> character_id second_form = []
        \<and> character_name second_form = character_name first_form \<longrightarrow>
        handle_form owner second_form second_id (snd (handle_form owner first_form first_id store)) =
          (Some (Inl Duplicate_persona_name), snd (handle_form owner first_form first_id store)))
   \<and> (distinct (map (\<lambda>p. (stored_owner p, stored_name p)) store) \<longrightarrow>
        distinct (map (\<lambda>p. (stored_owner p, stored_name p))
                    (snd (create_persona owner data new_id store))))"
proof (intro conjI impI)
  assume "owns_name owner (data_name data) store"
  then show "create_persona owner data new_id store = (Inl Duplicate_persona_name, store)"
    by (simp add: create_persona_def)
next
  assume a: "character_id first_form = [] \<and> character_id second_form = []
        \<and> character_name second_form = character_name first_form"
  let ?store = "snd (handle_form owner first_form first_id store)"
  have "owns_name owner (character_name first_form) ?store"
    using a
    by (simp add: handle_form_def submit_character_form_def create_persona_def Let_def
        owns_name_append)
  then show "handle_form owner second_form second_id ?store = (Some (Inl Duplicate_persona_name), ?store)"
    using a by (simp add: handle_form_def submit_character_form_def create_persona_def Let_def)
next
  assume "distinct (map (\<lambda>p. (stored_owner p, stored_name p)) store)"
  then show "distinct (map (\<lambda>p. (stored_owner p, stored_name p))
                    (snd (create_persona owner data new_id store)))"
    by (auto simp: create_persona_def Let_def owns_name_iff)
qed

theorem C3_duplicate_persona_name_witness:
  "character_id aragorn_form = []
   \<and> handle_form 8 aragorn_form 1 [] = (Some (Inr aragorn_stored), [aragorn_stored])
   \<and> handle_form 8 aragorn_form 2 [aragorn_stored] =
       (Some (Inl Duplicate_persona_name), [aragorn_stored])
   \<and> owns_name 8 ''Aragorn'' [aragorn_stored]
   \<and> create_persona 8
        \<lparr>data_name = ''Aragorn'', data_bio = ''Heir of Isildur'', data_avatar_url = None,
         data_color = None\<rparr> 2 [aragorn_stored] =
       (Inl Duplicate_persona_name, [aragorn_stored])
   \<and> distinct (map (\<lambda>p. (stored_owner p, stored_name p)) [aragorn_stored])"
proof -
  have 1: "handle_form 8 aragorn_form 1 [] = (Some (Inr aragorn_stored), [aragorn_stored])"
    by (simp add: handle_form_def submit_character_form_def create_persona_def Let_def
        aragorn_form_def aragorn_stored_def owns_name_def)
  have 2: "owns_name 8 ''Aragorn'' [aragorn_stored]"
    by (simp add: owns_name_def aragorn_stored_def)
  show ?thesis
    using C3_duplicate_persona_name
      [where owner = 8 and first_form = aragorn_form and second_form = aragorn_form and first_id = 1
         and second_id = 2 and store = "[]"]
      C3_duplicate_persona_name
      [where owner = 8 and store = "[aragorn_stored]" and new_id = 2
         and data = "\<lparr>data_name = ''Aragorn'', data_bio = ''Heir of Isildur'',
                       data_avatar_url = None, data_color = None\<rparr>"]
      1 2
    by (simp add: aragorn_form_def)
qed


section \<open>Consumption of interaction ids\<close>

lemma submit_command_consumed [simp]:
  "consumed_interaction_ids (submit_command u bot_id name args new_id p) =
     consumed_interaction_ids p"
  by (simp add: submit_command_def split: option.splits)

lemma worker_attempt_consumed [simp]:
  "consumed_interaction_ids (worker_attempt result redeliver p) = consumed_interaction_ids p"
  by (simp add: worker_attempt_def split: list.splits)

lemma worker_attempt_issued [simp]:
  "issued_interaction_ids (worker_attempt result redeliver p) = issued_interaction_ids p"
  by (simp add: worker_attempt_def split: list.splits)

lemma run_pipeline_consumed:
  "distinct (consumed_interaction_ids p) \<Longrightarrow> consumed_interaction_ids p = before @ accepted \<Longrightarrow>
   consumed_interaction_ids (fst (run_pipeline ops p accepted)) =
     before @ snd (run_pipeline ops p accepted)
   \<and> distinct (consumed_interaction_ids (fst (run_pipeline ops p accepted)))"
proof (induction ops p accepted rule: run_pipeline.induct)
  case (1 p accepted)
  then show ?case by simp
next
  case (2 u bot_id name args new_id ops p accepted)
  let ?p = "submit_command u bot_id name args new_id p"
  have "distinct (consumed_interaction_ids ?p)"
    and "consumed_interaction_ids ?p = before @ accepted"
    using 2(2,3) by simp_all
  from 2(1) [OF this] show ?case unfolding run_pipeline.simps .
next
  case (3 result redeliver ops p accepted)
  have "distinct (consumed_interaction_ids (worker_attempt result redeliver p))"
    and "consumed_interaction_ids (worker_attempt result redeliver p) = before @ accepted"
    using 3(2,3) by simp_all
  from 3(1) [OF this] show ?case unfolding run_pipeline.simps .
next
  case (4 iid ops p accepted)
  show ?case
  proof (cases "iid \<in> set (issued_interaction_ids p) \<and> iid \<notin> set (consumed_interaction_ids p)")
    case True
    let ?p = "p\<lparr>consumed_interaction_ids := consumed_interaction_ids p @ [iid]\<rparr>"
    have r: "respond_to_interaction iid p = (Response_accepted, ?p)"
      using True by (simp add: respond_to_interaction_def)
    have "distinct (consumed_interaction_ids ?p)"
      and "consumed_interaction_ids ?p = before @ (accepted @ [iid])"
      using True 4(3,4) by simp_all
    from 4(1) [OF r [symmetric] refl this] show ?thesis
      unfolding run_pipeline.simps r prod.case response_result.case .
  next
    case False
    have r: "respond_to_interaction iid p = (Response_rejected, p)"
      using False by (simp add: respond_to_interaction_def)
    from 4(2) [OF r [symmetric] refl 4(3,4)] show ?thesis
      unfolding run_pipeline.simps r prod.case response_result.case .
  qed
qed

text \<open>
  C4. In every run of the pipeline the accepted responses name pairwise different
  interaction ids, none of them consumed before the run; a response to a consumed id is
  rejected and changes nothing, so a response that was accepted is rejected when repeated.
\<close>

theorem C4_interaction_id_consumed_once:
  "(distinct (consumed_interaction_ids p) \<longrightarrow>
      distinct (consumed_interaction_ids p @ snd (run_pipeline ops p [])))
   \<and> (iid \<in> set (consumed_interaction_ids p) \<longrightarrow>
        respond_to_interaction iid p = (Response_rejected, p))
   \<and> (fst (respond_to_interaction iid p) = Response_accepted \<longrightarrow>
        respond_to_interaction iid (snd (respond_to_interaction iid p)) =
          (Response_rejected, snd (respond_to_interaction iid p)))"
proof (intro conjI impI)
  assume d: "distinct (consumed_interaction_ids p)"
  have eq: "consumed_interaction_ids (fst (run_pipeline ops p [])) =
              consumed_interaction_ids p @ snd (run_pipeline ops p [])"
    and dist: "distinct (consumed_interaction_ids (fst (run_pipeline ops p [])))"
    using run_pipeline_consumed [OF d, of "consumed_interaction_ids p" "[]" ops]
    by blast+
  show "distinct (consumed_interaction_ids p @ snd (run_pipeline ops p []))"
    using dist by (simp only: eq)
next
  assume "iid \<in> set (consumed_interaction_ids p)"
  then show "respond_to_interaction iid p = (Response_rejected, p)"
    by (simp add: respond_to_interaction_def)
next
  assume "fst (respond_to_interaction iid p) = Response_accepted"
  then show "respond_to_interaction iid (snd (respond_to_interaction iid p)) =
          (Response_rejected, snd (respond_to_interaction iid p))"
    by (simp add: respond_to_interaction_def split: if_splits)
qed

theorem C4_interaction_id_consumed_once_witness:
  "distinct (consumed_interaction_ids testcmd_pipeline)
   \<and> snd (run_pipeline
        [Submit desdemona 42 ''testcmd'' testcmd_arguments ''i-1'', Work Delivery_failed True,
         Work Delivered True, Respond ''i-1'', Work Delivered False, Respond ''i-1'',
         Respond ''i-2'']
        testcmd_pipeline []) = [''i-1'']
   \<and> ''i-1'' \<in> set (consumed_interaction_ids
        (fst (run_pipeline
          [Submit desdemona 42 ''testcmd'' testcmd_arguments ''i-1'', Work Delivered False,
           Respond ''i-1'']
          testcmd_pipeline [])))
   \<and> fst (respond_to_interaction ''i-1''
        (fst (run_pipeline
          [Submit desdemona 42 ''testcmd'' testcmd_arguments ''i-1'', Work Delivered False,
           Respond ''i-1'']
          testcmd_pipeline []))) = Response_rejected
   \<and> fst (respond_to_interaction ''i-1''
        (worker_attempt Delivered False
          (submit_command desdemona 42 ''testcmd'' testcmd_arguments ''i-1''
             testcmd_pipeline))) = Response_accepted
   \<and> fst (respond_to_interaction ''i-1''
        (snd (respond_to_interaction ''i-1''
          (worker_attempt Delivered False
            (submit_command desdemona 42 ''testcmd'' testcmd_arguments ''i-1''
               testcmd_pipeline))))) = Response_rejected"
  using C4_interaction_id_consumed_once
    [where p = testcmd_pipeline and
      ops = "[Submit desdemona 42 ''testcmd'' testcmd_arguments ''i-1'',
              Work Delivery_failed True, Work Delivered True, Respond ''i-1'',
              Work Delivered False, Respond ''i-1'', Respond ''i-2'']"]
    C4_interaction_id_consumed_once
    [where p = "fst (run_pipeline
          [Submit desdemona 42 ''testcmd'' testcmd_arguments ''i-1'', Work Delivered False,
           Respond ''i-1'']
          testcmd_pipeline [])" and iid = "''i-1''"]
    C4_interaction_id_consumed_once
    [where p = "worker_attempt Delivered False
          (submit_command desdemona 42 ''testcmd'' testcmd_arguments ''i-1''
             testcmd_pipeline)" and iid = "''i-1''"]
  by (simp add: testcmd_pipeline_def submit_command_def worker_attempt_def
      respond_to_interaction_def)

section \<open>Sender headers before and after a reload\<close>

lemma render_after_length [simp]: "length (render_after prev ms) = length ms"
  by (induction ms arbitrary: prev) simp_all

lemma render_after_fst [simp]: "map fst (render_after prev ms) = ms"
  by (induction ms arbitrary: prev) simp_all

lemma render_after_snoc:
  "render_after prev (ms @ [m]) =
     render_after prev ms @
       [(m, dialogue_header True
              (case (if ms = [] then prev else Some (last ms)) of
                 None \<Rightarrow> False | Some q \<Rightarrow> same_identity q m))]"
  by (induction ms arbitrary: prev) auto

lemma append_message_render:
  "append_message m (render_topic ms) = render_topic (ms @ [m])"
proof (cases "ms = []")
  case True
  then show ?thesis by (simp add: append_message_def render_topic_def)
next
  case False
  then have ne: "render_after None ms \<noteq> []"
    by (metis length_0_conv render_after_length)
  have "fst (last (render_after None ms)) = last ms"
    using False ne by (metis last_map render_after_fst)
  moreover obtain r rs where "render_after None ms = r # rs"
    using ne by (cases "render_after None ms") auto
  ultimately show ?thesis using False
    by (simp add: append_message_def render_topic_def render_after_snoc)
qed

lemma send_messages_render:
  "send_messages ms (stored, render_topic stored) =
     (stored @ ms, render_topic (stored @ ms))"
  by (induction ms arbitrary: stored) (simp_all add: append_message_render)

lemma render_after_nth:
  "i < length ms \<Longrightarrow>
   snd (render_after prev ms ! i) =
     (\<not> (case (if i = 0 then prev else Some (ms ! (i - 1))) of
            None \<Rightarrow> False | Some q \<Rightarrow> same_identity q (ms ! i)))"
proof (induction ms arbitrary: prev i)
  case Nil
  then show ?case by simp
next
  case (Cons m ms)
  show ?case
  proof (cases i)
    case 0
    then show ?thesis by (cases prev) (simp_all add: dialogue_header_def)
  next
    case (Suc j)
    then show ?thesis using Cons.prems Cons.IH [of j "Some m"]
      by (cases j) simp_all
  qed
qed

lemma render_all_headers:
  "(\<forall>i. Suc i < length ms \<longrightarrow> \<not> same_identity (ms ! i) (ms ! Suc i)) \<Longrightarrow>
   prev = None \<or> (ms \<noteq> [] \<longrightarrow> \<not> same_identity (the prev) (hd ms)) \<Longrightarrow>
   filter snd (render_after prev ms) = render_after prev ms"
proof (induction ms arbitrary: prev)
  case Nil
  then show ?case by simp
next
  case (Cons m ms)
  have 1: "\<forall>i. Suc i < length ms \<longrightarrow> \<not> same_identity (ms ! i) (ms ! Suc i)"
    using Cons.prems(1) by (metis Suc_less_eq length_Cons nth_Cons_Suc)
  have 2: "ms \<noteq> [] \<longrightarrow> \<not> same_identity m (hd ms)"
    using Cons.prems(1) by (cases ms) auto
  have "filter snd (render_after (Some m) ms) = render_after (Some m) ms"
    using Cons.IH [OF 1, of "Some m"] 2 by simp
  then show ?case using Cons.prems(2)
    by (auto simp: dialogue_header_def split: option.splits)
qed


lemma send_messages_from_empty:
  "send_messages ms ([], []) = (ms, render_topic ms)"
  using send_messages_render [of ms "[]"] by (simp add: render_topic_def)

text \<open>
  C5. When a message and the one before it differ in identity, the later one has its own
  sender header, in the live view and after a reload; the sender headers after a reload
  are those of the live view; and when all neighbours differ, every message has its
  header, in the order sent.
\<close>

theorem C5_sender_headers_not_collapsed:
  "(Suc i < length ms \<and> \<not> same_identity (ms ! i) (ms ! Suc i) \<longrightarrow>
      snd (snd (send_messages ms ([], [])) ! Suc i)
      \<and> snd (snd (reload (send_messages ms ([], []))) ! Suc i))
   \<and> sender_headers (snd (reload (send_messages ms ([], [])))) =
       sender_headers (snd (send_messages ms ([], [])))
   \<and> ((\<forall>j. Suc j < length ms \<longrightarrow> \<not> same_identity (ms ! j) (ms ! Suc j)) \<longrightarrow>
        sender_headers (snd (send_messages ms ([], []))) =
          map (\<lambda>m. (message_sender m, message_persona m)) ms)"
proof -
  have 1: "snd (snd (send_messages ms ([], [])) ! Suc i)
      \<and> snd (snd (reload (send_messages ms ([], []))) ! Suc i)"
    if a: "Suc i < length ms \<and> \<not> same_identity (ms ! i) (ms ! Suc i)"
  proof -
    have "snd (render_after None ms ! Suc i)"
      using a render_after_nth [of "Suc i" ms None] by simp
    then show ?thesis
      by (simp add: send_messages_from_empty reload_def render_topic_def)
  qed
  have 2: "sender_headers (snd (reload (send_messages ms ([], [])))) =
       sender_headers (snd (send_messages ms ([], [])))"
    by (simp add: send_messages_from_empty reload_def)
  have 3: "sender_headers (snd (send_messages ms ([], []))) =
          map (\<lambda>m. (message_sender m, message_persona m)) ms"
    if b: "\<forall>j. Suc j < length ms \<longrightarrow> \<not> same_identity (ms ! j) (ms ! Suc j)"
  proof -
    have "filter snd (render_after None ms) = render_after None ms"
      using b by (rule render_all_headers) simp
    then have "map fst (filter snd (render_after None ms)) = ms" by simp
    then have "map (\<lambda>m. (message_sender m, message_persona m))
                 (map fst (filter snd (render_after None ms))) =
               map (\<lambda>m. (message_sender m, message_persona m)) ms"
      by simp
    then show ?thesis
      by (simp add: send_messages_from_empty sender_headers_def render_topic_def comp_def)
  qed
  show ?thesis using 1 2 3 by blast
qed

theorem C5_sender_headers_not_collapsed_witness:
  "Suc 0 < length collapsing_test
   \<and> \<not> same_identity (collapsing_test ! 0) (collapsing_test ! Suc 0)
   \<and> snd (snd (send_messages collapsing_test ([], [])) ! Suc 0)
   \<and> snd (snd (reload (send_messages collapsing_test ([], []))) ! Suc 0)
   \<and> sender_headers (snd (reload (send_messages collapsing_test ([], [])))) =
       [(8, None), (8, Some 1), (8, Some 2), (8, None), (8, Some 1)]
   \<and> sender_headers (snd (send_messages collapsing_test ([], []))) =
       [(8, None), (8, Some 1), (8, Some 2), (8, None), (8, Some 1)]"
proof -
  have d: "\<forall>j. Suc j < length collapsing_test \<longrightarrow>
             \<not> same_identity (collapsing_test ! j) (collapsing_test ! Suc j)"
  proof (intro allI impI)
    fix j
    assume "Suc j < length collapsing_test"
    then have "j = 0 \<or> j = 1 \<or> j = 2 \<or> j = 3"
      by (auto simp: collapsing_test_def)
    then show "\<not> same_identity (collapsing_test ! j) (collapsing_test ! Suc j)"
      by (auto simp: collapsing_test_def same_identity_def)
  qed
  show ?thesis
    using C5_sender_headers_not_collapsed [of 0 collapsing_test] d
    by (simp add: same_identity_def) (simp add: collapsing_test_def)
qed


end
